theory Spec2Isabelle
  imports Main "HOL-Library.AList" "HOL-Library.Log_Nat" "HOL-Library.List_Lexorder"
    "HOL-Library.Char_ord"
begin

section \<open>PIM audit: the fetch, role-name resolution and classification of pim_audit.py\<close>

text \<open>
  The development embeds \<^verbatim>\<open>src/pim_audit.py\<close>: the paginated fetch \<^verbatim>\<open>gget_all\<close>, the
  role-definition cache with \<^verbatim>\<open>load_all_role_definitions\<close> and \<^verbatim>\<open>role_name\<close>, and the part of
  \<^verbatim>\<open>main\<close> that filters the activation instances and derives the three violation lists
  and the metrics. Credential acquisition, the GitHub helpers and the file output are
  outside of it.
\<close>

subsection \<open>JSON values and dictionaries\<close>

text \<open>
  The records fetched from the directory are JSON dictionaries whose fields hold strings
  or null. \<^verbatim>\<open>d.get(k)\<close> gives Python's \<^verbatim>\<open>None\<close> both for a missing key and for a null.
\<close>

datatype jval = JNull | JStr string

type_synonym jobj = "string \<rightharpoonup> jval"

definition dict_get :: "jobj \<Rightarrow> string \<Rightarrow> jval" where
  "dict_get d k = (case d k of None \<Rightarrow> JNull | Some v \<Rightarrow> v)"

definition dict_get_default :: "jobj \<Rightarrow> string \<Rightarrow> jval \<Rightarrow> jval" where
  "dict_get_default d k dflt = (case d k of None \<Rightarrow> dflt | Some v \<Rightarrow> v)"

text \<open>Python truthiness: \<^verbatim>\<open>None\<close> and the empty string are false.\<close>

fun truthy :: "jval \<Rightarrow> bool" where
  "truthy JNull = False"
| "truthy (JStr s) = (s \<noteq> [])"

text \<open>The text of a value inside an f-string.\<close>

fun str_of :: "jval \<Rightarrow> string" where
  "str_of JNull = ''None''"
| "str_of (JStr s) = s"

subsection \<open>Constants\<close>

definition GRAPH :: string where
  "GRAPH = ''https://graph.microsoft.com/v1.0''"

definition STALE_ELIGIBILITY_DAYS :: int where
  "STALE_ELIGIBILITY_DAYS = 90"

definition MAX_ACTIVATION_HOURS :: int where
  "MAX_ACTIVATION_HOURS = 8"


definition PRIV_ROLES_list :: "string list" where
  "PRIV_ROLES_list =
    [''Global Administrator'',
     ''Privileged Role Administrator'',
     ''Security Administrator'',
     ''Conditional Access Administrator'',
     ''Application Administrator'',
     ''Cloud Application Administrator'',
     ''Exchange Administrator'',
     ''SharePoint Administrator'']"

definition PRIV_ROLES :: "string set" where
  "PRIV_ROLES = set PRIV_ROLES_list"

text \<open>\<^verbatim>\<open>rname in PRIV_ROLES\<close> for a value that is a string or \<^verbatim>\<open>None\<close>.\<close>

fun in_PRIV_ROLES :: "jval \<Rightarrow> bool" where
  "in_PRIV_ROLES JNull = False"
| "in_PRIV_ROLES (JStr s) = (s \<in> PRIV_ROLES)"

subsection \<open>Timestamps\<close>

text \<open>
  A \<^verbatim>\<open>datetime\<close> is naive (a wall-clock reading) or aware (an instant); both are counted
  in microseconds. Comparing or subtracting a naive and an aware value raises
  \<^verbatim>\<open>TypeError\<close>, here \<open>None\<close>. A \<^verbatim>\<open>timedelta\<close> is a whole number of microseconds.
\<close>

datatype datetime = Naive int | Aware int


fun dt_sub :: "datetime \<Rightarrow> datetime \<Rightarrow> int option" where
  "dt_sub (Aware a) (Aware b) = Some (a - b)"
| "dt_sub (Naive a) (Naive b) = Some (a - b)"
| "dt_sub _ _ = None"


text \<open>\<^verbatim>\<open>s.replace("Z", "+00:00")\<close> replaces every occurrence.\<close>

definition replace_Z :: "string \<Rightarrow> string" where
  "replace_Z s = concat (map (\<lambda>c. if c = CHR ''Z'' then ''+00:00'' else [c]) s)"

subsection \<open>Floating point\<close>

text \<open>
  A Python float is a binary64 number; it is represented by the rational it denotes.
  \<open>fl\<close> rounds a rational to the nearest number with a 53-bit significand, ties to
  even. The durations of this program stay far from the overflow and subnormal ranges
  (a \<^verbatim>\<open>timedelta\<close> is below \<open>10\<^sup>9\<close> days and a multiple of a microsecond), so the exponent
  is left unbounded.
\<close>

definition round_half_even :: "rat \<Rightarrow> int" where
  "round_half_even x =
     (let f = \<lfloor>x\<rfloor>; d = x - of_int f
      in if d < 1 / 2 then f else if 1 / 2 < d then f + 1 else if even f then f else f + 1)"

definition binexp :: "rat \<Rightarrow> int" where
  "binexp a =
     (let (p, q) = quotient_of a; e0 = bitlen p - bitlen q
      in if 2 powi e0 \<le> a then e0 else e0 - 1)"

definition fl :: "rat \<Rightarrow> rat" where
  "fl x =
     (if x = 0 then 0
      else let a = \<bar>x\<bar>; u = 2 powi (binexp a - 52)
           in sgn x * of_int (round_half_even (a / u)) * u)"

text \<open>\<^verbatim>\<open>td.total_seconds()\<close> is the correctly rounded quotient of two integers.\<close>

definition total_seconds :: "int \<Rightarrow> rat" where
  "total_seconds us = fl (of_int us / 1000000)"

definition hours_of :: "int \<Rightarrow> rat" where
  "hours_of us = fl (total_seconds us / 3600)"

text \<open>
  \<^verbatim>\<open>round(x, 2)\<close> converts the float to the nearest decimal with two places (ties of the
  exact binary value to even) and reads that decimal back as a float.
\<close>

definition py_round2 :: "rat \<Rightarrow> rat" where
  "py_round2 x = fl (of_int (round_half_even (x * 100)) / 100)"

subsection \<open>The network, the process state and the library functions\<close>

text \<open>
  An HTTP response as the code reads it: the status code, the \<^verbatim>\<open>Retry-After\<close> header,
  the body as \<^verbatim>\<open>r.json()\<close> sees it and \<^verbatim>\<open>r.text\<close>. A body is not JSON
  (\<^verbatim>\<open>r.json()\<close> raises), or a JSON document that is not an object (an array, a text, a
  number, null: \<^verbatim>\<open>.get\<close> on it raises \<^verbatim>\<open>AttributeError\<close>), or a JSON object. Of an
  object the code reads the string fields and \<^verbatim>\<open>data.get("value", [])\<close>: \<open>Some\<close> of the
  records that \<^verbatim>\<open>items.extend\<close> appends (the empty list when the key is missing),
  \<open>None\<close> when the value is one that \<^verbatim>\<open>items.extend\<close> rejects with \<^verbatim>\<open>TypeError\<close>
  (null, a number, a truth value). The items of a collection are JSON objects, which
  is how the rest of the code reads them.
\<close>

datatype body = NotJson | JsonOther | Json jobj "jobj list option"

record response =
  status_code :: nat
  retry_after :: "string option"
  body :: body
  resp_text :: string

datatype reply = ConnError | Reply response

type_synonym request = "string \<times> (string \<times> string) list option"

datatype error =
  RequestException | ValueError | OverflowError | OSError | HTTPError nat | JSONDecodeError
| AttributeError | TypeError | KeyError

datatype log =
  Throttled int
| GraphErrorJson nat body
| GraphErrorText nat string
| LoadedDefs nat
| BulkFailed error
| GotInstances nat nat

datatype event = Http request reply | Sleep int | Print log

text \<open>
  What the run does not control is a parameter: \<open>net t req\<close> is what
  \<^verbatim>\<open>requests.get\<close> gives for the request \<open>req\<close> when \<open>t\<close> requests have been made
  before it (so the directory may answer the same request differently later),
  \<open>fromisoformat\<close> and \<open>int_of_str\<close> are \<^verbatim>\<open>datetime.fromisoformat\<close> and \<^verbatim>\<open>int\<close> with
  \<open>None\<close> for \<^verbatim>\<open>ValueError\<close>, \<open>sleep_error s\<close> is the exception that \<^verbatim>\<open>time.sleep(s)\<close>
  raises for a non-negative \<open>s\<close>, if any (an interval beyond what the clock of the
  platform takes: \<^verbatim>\<open>OverflowError\<close> or \<^verbatim>\<open>OSError\<close>), \<open>now_utc\<close> is
  \<^verbatim>\<open>datetime.now(timezone.utc)\<close> in microseconds and \<open>run_ts\<close> its \<^verbatim>\<open>strftime\<close> text.
  The bearer token and the other headers are the same in every request and are left out.
\<close>

record env =
  net :: "nat \<Rightarrow> request \<Rightarrow> reply"
  fromisoformat :: "string \<Rightarrow> datetime option"
  int_of_str :: "string \<Rightarrow> int option"
  sleep_error :: "int \<Rightarrow> error option"
  now_utc :: int
  run_ts :: string

text \<open>
  The state of the process: the dictionary \<^verbatim>\<open>_role_name_by_id\<close> in insertion order,
  the number of requests made so far, and what the run has requested, slept and printed.
\<close>

record world =
  role_name_by_id :: "(jval \<times> jval) list"
  tick :: nat
  trace :: "event list"

definition emit :: "event \<Rightarrow> world \<Rightarrow> world" where
  "emit ev w = w\<lparr>trace := trace w @ [ev]\<rparr>"

text \<open>\<^verbatim>\<open>requests.get\<close>: the reply, and the world after the request.\<close>

definition http_get :: "env \<Rightarrow> request \<Rightarrow> world \<Rightarrow> reply \<times> world" where
  "http_get env req w =
     (let rep = net env (tick w) req
      in (rep, w\<lparr>tick := Suc (tick w), trace := trace w @ [Http req rep]\<rparr>))"

subsection \<open>gget_all\<close>

text \<open>
  The \<^verbatim>\<open>while url:\<close> loop, with fuel: \<open>None\<close> is a loop that has not ended within the
  fuel, \<open>Some (Inl e)\<close> an exception that leaves \<^verbatim>\<open>gget_all\<close>, \<open>Some (Inr items)\<close> its
  return value. \<^verbatim>\<open>time.sleep\<close> raises \<^verbatim>\<open>ValueError\<close> for a negative interval and what
  \<open>sleep_error\<close> says for another; \<^verbatim>\<open>raise_for_status\<close> raises for the codes 400 to
  599; nothing in \<^verbatim>\<open>gget_all\<close> catches an exception.
\<close>

fun gget_loop ::
  "env \<Rightarrow> nat \<Rightarrow> jval \<Rightarrow> (string \<times> string) list option \<Rightarrow> jobj list \<Rightarrow> world
     \<Rightarrow> (error + jobj list) option \<times> world" where
  "gget_loop env 0 url params items w =
     (if truthy url then (None, w) else (Some (Inr items), w))"
| "gget_loop env (Suc n) url params items w =
     (if \<not> truthy url then (Some (Inr items), w)
      else case http_get env (str_of url, params) w of
        (ConnError, w1) \<Rightarrow> (Some (Inl RequestException), w1)
      | (Reply r, w1) \<Rightarrow>
          if status_code r = 429 then
            (case int_of_str env (case retry_after r of None \<Rightarrow> ''2'' | Some h \<Rightarrow> h) of
               None \<Rightarrow> (Some (Inl ValueError), w1)
             | Some wait_s \<Rightarrow>
                 let w2 = emit (Print (Throttled wait_s)) w1
                 in if wait_s < 0 then (Some (Inl ValueError), w2)
                    else (case sleep_error env wait_s of
                            Some ex \<Rightarrow> (Some (Inl ex), w2)
                          | None \<Rightarrow> gget_loop env n url None items (emit (Sleep wait_s) w2)))
          else
            let w2 = (if 400 \<le> status_code r
                      then (case body r of
                              NotJson \<Rightarrow>
                                emit (Print (GraphErrorText (status_code r) (take 800 (resp_text r)))) w1
                            | _ \<Rightarrow>
                                emit (Print (GraphErrorJson (status_code r) (body r))) w1)
                      else w1)
            in if 400 \<le> status_code r \<and> status_code r < 600
               then (Some (Inl (HTTPError (status_code r))), w2)
               else (case body r of
                       NotJson \<Rightarrow> (Some (Inl JSONDecodeError), w2)
                     | JsonOther \<Rightarrow> (Some (Inl AttributeError), w2)
                     | Json flds None \<Rightarrow> (Some (Inl TypeError), w2)
                     | Json flds (Some vals) \<Rightarrow>
                         gget_loop env n (dict_get flds ''@odata.nextLink'') None
                           (items @ vals) w2))"

definition gget_all ::
  "env \<Rightarrow> nat \<Rightarrow> string \<Rightarrow> (string \<times> string) list option \<Rightarrow> world
     \<Rightarrow> (error + jobj list) option \<times> world" where
  "gget_all env fuel path params w = gget_loop env fuel (JStr (GRAPH @ path)) params [] w"

subsection \<open>The role-definition cache\<close>

text \<open>
  \<^verbatim>\<open>load_all_role_definitions\<close>: the dictionary comprehension reads \<^verbatim>\<open>d["id"]\<close> of every
  definition before anything is written, so a definition without \<^verbatim>\<open>"id"\<close> leaves the
  cache as it was; every exception is caught and reported.
\<close>

definition load_all_role_definitions :: "env \<Rightarrow> nat \<Rightarrow> world \<Rightarrow> unit option \<times> world" where
  "load_all_role_definitions env fuel w =
     (case gget_all env fuel ''/roleManagement/directory/roleDefinitions'' None w of
        (None, w1) \<Rightarrow> (None, w1)
      | (Some (Inl ex), w1) \<Rightarrow> (Some (), emit (Print (BulkFailed ex)) w1)
      | (Some (Inr defs), w1) \<Rightarrow>
          if \<exists>d \<in> set defs. d ''id'' = None
          then (Some (), emit (Print (BulkFailed KeyError)) w1)
          else
            let c = fold (\<lambda>d. AList.update (dict_get d ''id'')
                                 (dict_get_default d ''displayName'' (JStr '''')))
                      defs (role_name_by_id w1)
            in (Some (), emit (Print (LoadedDefs (length c))) (w1\<lparr>role_name_by_id := c\<rparr>)))"

text \<open>
  \<^verbatim>\<open>role_name\<close>. The lookup, the request and the reading of the body are inside
  \<^verbatim>\<open>try ... except Exception: pass\<close>, so every failure ends at \<^verbatim>\<open>return role_def_id\<close>.
\<close>

definition role_name :: "env \<Rightarrow> jval \<Rightarrow> world \<Rightarrow> jval \<times> world" where
  "role_name env role_def_id w =
     (if \<not> truthy role_def_id then (JStr [], w)
      else case map_of (role_name_by_id w) role_def_id of
        Some v \<Rightarrow> (v, w)
      | None \<Rightarrow>
          (case http_get env
                  (GRAPH @ ''/roleManagement/directory/roleDefinitions/'' @ str_of role_def_id,
                   None) w of
             (ConnError, w1) \<Rightarrow> (role_def_id, w1)
           | (Reply r, w1) \<Rightarrow>
               if status_code r < 400 then
                 (case body r of
                    NotJson \<Rightarrow> (role_def_id, w1)
                  | JsonOther \<Rightarrow> (role_def_id, w1)
                  | Json flds vals \<Rightarrow>
                      let name = dict_get_default flds ''displayName'' role_def_id
                      in (name, w1\<lparr>role_name_by_id :=
                                     AList.update role_def_id name (role_name_by_id w1)\<rparr>))
               else (role_def_id, w1)))"

text \<open>\<^verbatim>\<open>upn\<close>, the closure of \<^verbatim>\<open>main\<close> that resolves a principal's name.\<close>

definition upn :: "env \<Rightarrow> jval \<Rightarrow> world \<Rightarrow> jval \<times> world" where
  "upn env pid w =
     (if \<not> truthy pid then (JStr [], w)
      else case http_get env (GRAPH @ ''/users/'' @ str_of pid, None) w of
        (ConnError, w1) \<Rightarrow> (pid, w1)
      | (Reply r, w1) \<Rightarrow>
          if status_code r < 400 then
            (case body r of
               NotJson \<Rightarrow> (pid, w1)
             | JsonOther \<Rightarrow> (pid, w1)
             | Json flds vals \<Rightarrow> (dict_get_default flds ''userPrincipalName'' pid, w1))
          else (pid, w1))"

subsection \<open>The window filter\<close>

text \<open>\<^verbatim>\<open>_parse_iso\<close>: \<^verbatim>\<open>None\<close> for a missing or empty text and for one that does not parse.\<close>

definition parse_iso :: "env \<Rightarrow> jval \<Rightarrow> datetime option" where
  "parse_iso env dt =
     (if \<not> truthy dt then None else fromisoformat env (replace_Z (str_of dt)))"


subsection \<open>The three derivations\<close>

record permanent_rec =
  pr_principalId :: jval
  pr_principalUPN :: jval
  pr_role :: jval
  pr_assignmentId :: jval
  pr_createdDateTime :: jval

record stale_rec =
  se_principalId :: jval
  se_principalUPN :: jval
  se_role :: jval
  se_eligibilityId :: jval
  se_eligibleSince :: jval

record long_rec =
  la_principalId :: jval
  la_principalUPN :: jval
  la_role :: jval
  la_instanceId :: jval
  la_start :: jval
  la_end :: jval
  la_hours :: rat

definition key_of :: "jobj \<Rightarrow> jval \<times> jval" where
  "key_of d = (dict_get d ''principalId'', dict_get d ''roleDefinitionId'')"

text \<open>
  A \<^verbatim>\<open>for x in xs:\<close> loop whose body appends at most one record to a list: the body
  gives the record it appends, if any, and the world after it.
\<close>

fun for_each ::
  "('a \<Rightarrow> world \<Rightarrow> 'b option \<times> world) \<Rightarrow> 'a list \<Rightarrow> 'b list \<Rightarrow> world \<Rightarrow> 'b list \<times> world" where
  "for_each step [] acc w = (acc, w)"
| "for_each step (x # xs) acc w =
     (case step x w of
        (None, w1) \<Rightarrow> for_each step xs acc w1
      | (Some r, w1) \<Rightarrow> for_each step xs (acc @ [r]) w1)"

text \<open>The body of \<^verbatim>\<open>for a in assignments:\<close>.\<close>

definition permanent_step ::
  "env \<Rightarrow> (jval \<times> jval) set \<Rightarrow> jobj \<Rightarrow> world \<Rightarrow> permanent_rec option \<times> world" where
  "permanent_step env inst_keys a w =
     (let (rname, w1) = role_name env (dict_get a ''roleDefinitionId'') w
      in if in_PRIV_ROLES rname then
           let key = (dict_get a ''principalId'', dict_get a ''roleDefinitionId'')
           in if key \<notin> inst_keys then
                let (u, w2) = upn env (dict_get a ''principalId'') w1
                in (Some \<lparr>pr_principalId = dict_get a ''principalId'',
                          pr_principalUPN = u,
                          pr_role = rname,
                          pr_assignmentId = dict_get a ''id'',
                          pr_createdDateTime = dict_get a ''createdDateTime''\<rparr>, w2)
              else (None, w1)
         else (None, w1))"

text \<open>The body of \<^verbatim>\<open>for e in eligibles:\<close>.\<close>

definition stale_step ::
  "env \<Rightarrow> (jval \<times> jval) set \<Rightarrow> jobj \<Rightarrow> world \<Rightarrow> stale_rec option \<times> world" where
  "stale_step env recent_keys e w =
     (let (rname, w1) = role_name env (dict_get e ''roleDefinitionId'') w
      in if in_PRIV_ROLES rname then
           let key = (dict_get e ''principalId'', dict_get e ''roleDefinitionId'')
           in if key \<notin> recent_keys then
                let (u, w2) = upn env (dict_get e ''principalId'') w1
                in (Some \<lparr>se_principalId = dict_get e ''principalId'',
                          se_principalUPN = u,
                          se_role = rname,
                          se_eligibilityId = dict_get e ''id'',
                          se_eligibleSince = dict_get e ''startDateTime''\<rparr>, w2)
              else (None, w1)
         else (None, w1))"

text \<open>
  The body of \<^verbatim>\<open>for i in inst:\<close>. Everything after \<^verbatim>\<open>if start and end:\<close> is inside
  \<^verbatim>\<open>try ... except Exception: pass\<close>: a text that does not parse and a difference of a
  naive and an aware value end the iteration with nothing appended.
\<close>

definition long_step :: "env \<Rightarrow> jobj \<Rightarrow> world \<Rightarrow> long_rec option \<times> world" where
  "long_step env i w =
     (let (rname, w1) = role_name env (dict_get i ''roleDefinitionId'') w
      in if in_PRIV_ROLES rname then
           let start = dict_get i ''startDateTime''; end = dict_get i ''endDateTime''
           in if truthy start \<and> truthy end then
                (case fromisoformat env (replace_Z (str_of start)) of
                   None \<Rightarrow> (None, w1)
                 | Some s \<Rightarrow>
                     (case fromisoformat env (replace_Z (str_of end)) of
                        None \<Rightarrow> (None, w1)
                      | Some e \<Rightarrow>
                          (case dt_sub e s of
                             None \<Rightarrow> (None, w1)
                           | Some td \<Rightarrow>
                               let hours = hours_of td
                               in if of_int MAX_ACTIVATION_HOURS < hours then
                                    let (u, w2) = upn env (dict_get i ''principalId'') w1
                                    in (Some \<lparr>la_principalId = dict_get i ''principalId'',
                                              la_principalUPN = u,
                                              la_role = rname,
                                              la_instanceId = dict_get i ''id'',
                                              la_start = start, la_end = end,
                                              la_hours = py_round2 hours\<rparr>, w2)
                                  else (None, w1))))
              else (None, w1)
         else (None, w1))"

subsection \<open>Metrics and the run\<close>

record metrics =
  timestamp :: string
  privileged_roles_tracked :: "string list"
  active_privileged_assignments :: nat
  eligible_privileged_users :: nat
  activations_last_30d :: nat
  permanent_privileged_assignments :: nat
  stale_eligibilities_90d :: nat
  long_activations_over_8h :: nat

text \<open>\<^verbatim>\<open>sum(1 for x in xs if role_name(x.get("roleDefinitionId"), token) in PRIV_ROLES)\<close>.\<close>

fun count_privileged :: "env \<Rightarrow> jobj list \<Rightarrow> nat \<Rightarrow> world \<Rightarrow> nat \<times> world" where
  "count_privileged env [] n w = (n, w)"
| "count_privileged env (x # xs) n w =
     (let (rname, w1) = role_name env (dict_get x ''roleDefinitionId'') w
      in count_privileged env xs (if in_PRIV_ROLES rname then n + 1 else n) w1)"

record outputs =
  out_metrics :: metrics
  out_permanent :: "permanent_rec list"
  out_stale :: "stale_rec list"
  out_long :: "long_rec list"

text \<open>
  Lines 204 to 265 of \<^verbatim>\<open>main\<close>: the two key sets, the three loops and the metrics, from
  the fetched assignments and eligibilities and the filtered instances.
\<close>

definition inst_keys_of :: "jobj list \<Rightarrow> (jval \<times> jval) set" where
  "inst_keys_of inst = set (map (\<lambda>i. (dict_get i ''principalId'', dict_get i ''roleDefinitionId'')) inst)"

definition recent_keys_of :: "jobj list \<Rightarrow> (jval \<times> jval) set" where
  "recent_keys_of inst = set (map (\<lambda>i. (dict_get i ''principalId'', dict_get i ''roleDefinitionId'')) inst)"

definition classify :: "env \<Rightarrow> jobj list \<Rightarrow> jobj list \<Rightarrow> jobj list \<Rightarrow> world \<Rightarrow> outputs \<times> world" where
  "classify env assignments eligibles inst w =
     (let inst_keys = inst_keys_of inst;
          (permanent, w1) = for_each (permanent_step env inst_keys) assignments [] w;
          recent_keys = recent_keys_of inst;
          (stale, w2) = for_each (stale_step env recent_keys) eligibles [] w1;
          (long_acts, w3) = for_each (long_step env) inst [] w2;
          (n_assigned, w4) = count_privileged env assignments 0 w3;
          (n_eligible, w5) = count_privileged env eligibles 0 w4
      in (\<lparr>out_metrics =
             \<lparr>timestamp = run_ts env,
              privileged_roles_tracked = sort PRIV_ROLES_list,
              active_privileged_assignments = n_assigned,
              eligible_privileged_users = n_eligible,
              activations_last_30d = length inst,
              permanent_privileged_assignments = length permanent,
              stale_eligibilities_90d = length stale,
              long_activations_over_8h = length long_acts\<rparr>,
           out_permanent = permanent, out_stale = stale, out_long = long_acts\<rparr>, w5))"


section \<open>Notions used to state the properties\<close>


text \<open>
  The iterations of a loop: each element with the world its iteration starts in and the
  record the body appends for it, if any.
\<close>

fun iterations ::
  "('a \<Rightarrow> world \<Rightarrow> 'b option \<times> world) \<Rightarrow> 'a list \<Rightarrow> world \<Rightarrow> ('a \<times> world \<times> 'b option) list" where
  "iterations step [] w = []"
| "iterations step (x # xs) w = (x, w, fst (step x w)) # iterations step xs (snd (step x w))"

text \<open>Resolution held fixed: the directory answers a request the same way at any time.\<close>

definition fixed_net :: "env \<Rightarrow> bool" where
  "fixed_net env \<longleftrightarrow> (\<forall>t req. net env t req = net env 0 req)"

text \<open>
  The name that a role-definition id resolves to under a cache, when the directory's
  answer is the one it gives at time 0.
\<close>

definition name_of :: "env \<Rightarrow> (jval \<times> jval) list \<Rightarrow> jval \<Rightarrow> jval" where
  "name_of env cache role_def_id =
     (if \<not> truthy role_def_id then JStr []
      else case map_of cache role_def_id of
        Some v \<Rightarrow> v
      | None \<Rightarrow>
          (case net env 0
                  (GRAPH @ ''/roleManagement/directory/roleDefinitions/'' @ str_of role_def_id,
                   None) of
             ConnError \<Rightarrow> role_def_id
           | Reply r \<Rightarrow>
               if status_code r < 400 then
                 (case body r of
                    NotJson \<Rightarrow> role_def_id
                  | JsonOther \<Rightarrow> role_def_id
                  | Json flds vals \<Rightarrow> dict_get_default flds ''displayName'' role_def_id)
               else role_def_id))"

text \<open>The resolution that a world's cache gives.\<close>

abbreviation (input) cache_names :: "env \<Rightarrow> world \<Rightarrow> jval \<Rightarrow> jval" where
  "cache_names env w \<equiv> name_of env (role_name_by_id w)"

section \<open>A sample directory\<close>

text \<open>
  Concrete inputs for the properties below. \<open>iso_basic\<close> stands for
  \<^verbatim>\<open>datetime.fromisoformat\<close> on the layout \<^verbatim>\<open>YYYY-MM-DDTHH:MM:SS\<close> with an optional
  offset \<^verbatim>\<open>+HH:MM\<close> or \<^verbatim>\<open>-HH:MM\<close>, counting microseconds from the start of day 0 of
  the proleptic Gregorian calendar (\<^verbatim>\<open>toordinal\<close>); a text of another layout is taken
  not to parse. \<open>dec_int\<close> stands for \<^verbatim>\<open>int\<close> on a text of decimal digits with an
  optional sign.
\<close>

definition digit_of :: "char \<Rightarrow> int option" where
  "digit_of c = (let n = (of_char c :: int) in if 48 \<le> n \<and> n \<le> 57 then Some (n - 48) else None)"

definition number_of :: "string \<Rightarrow> int option" where
  "number_of cs =
     (if cs = [] then None
      else fold (\<lambda>c acc. case (acc, digit_of c) of
                           (Some a, Some d) \<Rightarrow> Some (10 * a + d)
                         | _ \<Rightarrow> None) cs (Some 0))"

definition dec_int :: "string \<Rightarrow> int option" where
  "dec_int s =
     (case s of
        [] \<Rightarrow> None
      | c # cs \<Rightarrow>
          if c = CHR ''-'' then map_option uminus (number_of cs)
          else if c = CHR ''+'' then number_of cs
          else number_of s)"

definition is_leap :: "int \<Rightarrow> bool" where
  "is_leap y \<longleftrightarrow> y mod 4 = 0 \<and> (y mod 100 \<noteq> 0 \<or> y mod 400 = 0)"

definition days_in_month :: "int \<Rightarrow> int \<Rightarrow> int" where
  "days_in_month y m =
     (if m = 2 then (if is_leap y then 29 else 28)
      else if m = 4 \<or> m = 6 \<or> m = 9 \<or> m = 11 then 30 else 31)"

definition ordinal :: "int \<Rightarrow> int \<Rightarrow> int \<Rightarrow> int" where
  "ordinal y m d =
     (y - 1) * 365 + (y - 1) div 4 - (y - 1) div 100 + (y - 1) div 400
       + sum_list (map (days_in_month y) [1..m - 1]) + d"

definition parse_offset :: "string \<Rightarrow> int option" where
  "parse_offset s =
     (if length s = 6 \<and> (s ! 0 = CHR ''+'' \<or> s ! 0 = CHR ''-'') \<and> s ! 3 = CHR '':'' then
        (case (number_of (take 2 (drop 1 s)), number_of (take 2 (drop 4 s))) of
           (Some h, Some m) \<Rightarrow>
             if h < 24 \<and> m < 60
             then Some ((if s ! 0 = CHR ''-'' then - 1 else 1) * (h * 3600 + m * 60) * 1000000)
             else None
         | _ \<Rightarrow> None)
      else None)"

definition iso_basic :: "string \<Rightarrow> datetime option" where
  "iso_basic s =
     (if (length s = 19 \<or> length s = 25) \<and> s ! 4 = CHR ''-'' \<and> s ! 7 = CHR ''-''
          \<and> s ! 10 = CHR ''T'' \<and> s ! 13 = CHR '':'' \<and> s ! 16 = CHR '':'' then
        (case (number_of (take 4 s), number_of (take 2 (drop 5 s)),
               number_of (take 2 (drop 8 s)), number_of (take 2 (drop 11 s)),
               number_of (take 2 (drop 14 s)), number_of (take 2 (drop 17 s))) of
           (Some y, Some mo, Some d, Some h, Some mi, Some sec) \<Rightarrow>
             if 1 \<le> y \<and> 1 \<le> mo \<and> mo \<le> 12 \<and> 1 \<le> d \<and> d \<le> days_in_month y mo
                  \<and> h < 24 \<and> mi < 60 \<and> sec < 60 then
               (let us = (((ordinal y mo d * 24 + h) * 60 + mi) * 60 + sec) * 1000000
                in if length s = 19 then Some (Naive us)
                   else map_option (\<lambda>off. Aware (us - off)) (parse_offset (drop 19 s)))
             else None
         | _ \<Rightarrow> None)
      else None)"

definition ok_reply :: "jobj \<Rightarrow> jobj list \<Rightarrow> reply" where
  "ok_reply flds vals =
     Reply \<lparr>status_code = 200, retry_after = None, body = Json flds (Some vals),
            resp_text = []\<rparr>"

definition err_reply :: "nat \<Rightarrow> reply" where
  "err_reply code =
     Reply \<lparr>status_code = code, retry_after = None, body = NotJson, resp_text = ''error''\<rparr>"

definition sample_assignment :: jobj where
  "sample_assignment =
     [''id'' \<mapsto> JStr ''a1'', ''principalId'' \<mapsto> JStr ''p1'',
      ''roleDefinitionId'' \<mapsto> JStr ''r-ga'',
      ''createdDateTime'' \<mapsto> JStr ''2023-05-01T00:00:00Z'']"

definition reader_assignment :: jobj where
  "reader_assignment =
     [''id'' \<mapsto> JStr ''a2'', ''principalId'' \<mapsto> JStr ''p1'',
      ''roleDefinitionId'' \<mapsto> JStr ''r-rd'',
      ''createdDateTime'' \<mapsto> JStr ''2023-05-01T00:00:00Z'']"

definition sample_eligibility :: jobj where
  "sample_eligibility =
     [''id'' \<mapsto> JStr ''e1'', ''principalId'' \<mapsto> JStr ''p1'',
      ''roleDefinitionId'' \<mapsto> JStr ''r-ga'',
      ''startDateTime'' \<mapsto> JStr ''2023-05-01T00:00:00Z'']"

definition sample_instance :: jobj where
  "sample_instance =
     [''id'' \<mapsto> JStr ''i1'', ''principalId'' \<mapsto> JStr ''p1'',
      ''roleDefinitionId'' \<mapsto> JStr ''r-ga'',
      ''startDateTime'' \<mapsto> JStr ''2024-01-01T00:00:00Z'',
      ''endDateTime'' \<mapsto> JStr ''2024-01-01T09:30:00Z'']"

definition reader_eligibility :: jobj where
  "reader_eligibility =
     [''id'' \<mapsto> JStr ''e2'', ''principalId'' \<mapsto> JStr ''p1'',
      ''roleDefinitionId'' \<mapsto> JStr ''r-rd'',
      ''startDateTime'' \<mapsto> JStr ''2023-05-01T00:00:00Z'']"

definition reader_instance :: jobj where
  "reader_instance =
     [''id'' \<mapsto> JStr ''i2'', ''principalId'' \<mapsto> JStr ''p1'',
      ''roleDefinitionId'' \<mapsto> JStr ''r-rd'',
      ''startDateTime'' \<mapsto> JStr ''2024-01-02T00:00:00Z'',
      ''endDateTime'' \<mapsto> JStr ''2024-01-03T00:00:00Z'']"

definition standing_assignment :: jobj where
  "standing_assignment =
     [''id'' \<mapsto> JStr ''a3'', ''principalId'' \<mapsto> JStr ''p2'',
      ''roleDefinitionId'' \<mapsto> JStr ''r-ga'',
      ''createdDateTime'' \<mapsto> JStr ''2022-11-15T08:00:00Z'']"

definition early_instance :: jobj where
  "early_instance =
     [''id'' \<mapsto> JStr ''i3'', ''principalId'' \<mapsto> JStr ''p2'',
      ''roleDefinitionId'' \<mapsto> JStr ''r-ga'',
      ''startDateTime'' \<mapsto> JStr ''2023-12-31T23:59:59Z'',
      ''endDateTime'' \<mapsto> JStr ''2024-01-01T09:30:00Z'']"

definition undated_instance :: jobj where
  "undated_instance =
     [''id'' \<mapsto> JStr ''i4'', ''principalId'' \<mapsto> JStr ''p3'',
      ''roleDefinitionId'' \<mapsto> JStr ''r-ga'',
      ''startDateTime'' \<mapsto> JStr ''yesterday'']"

text \<open>
  A directory with three assignments, two eligibilities and four instances, each
  collection on one page, that knows two role definitions and one user and answers 404
  to any other request.
\<close>

definition sample_net :: "nat \<Rightarrow> request \<Rightarrow> reply" where
  "sample_net t req =
     (if fst req = GRAPH @ ''/roleManagement/directory/roleDefinitions/r-ga''
      then ok_reply [''id'' \<mapsto> JStr ''r-ga'', ''displayName'' \<mapsto> JStr ''Global Administrator''] []
      else if fst req = GRAPH @ ''/roleManagement/directory/roleDefinitions/r-rd''
      then ok_reply [''id'' \<mapsto> JStr ''r-rd'', ''displayName'' \<mapsto> JStr ''Directory Readers''] []
      else if fst req = GRAPH @ ''/users/p1''
      then ok_reply [''userPrincipalName'' \<mapsto> JStr ''alice@contoso.com''] []
      else if fst req = GRAPH @ ''/roleManagement/directory/roleAssignments''
      then ok_reply Map.empty [sample_assignment, reader_assignment, standing_assignment]
      else if fst req = GRAPH @ ''/roleManagement/directory/roleEligibilitySchedules''
      then ok_reply Map.empty [sample_eligibility, reader_eligibility]
      else if fst req = GRAPH @ ''/roleManagement/directory/roleAssignmentScheduleInstances''
      then ok_reply Map.empty [sample_instance, reader_instance, early_instance, undated_instance]
      else if fst req = GRAPH @ ''/roleManagement/directory/roleDefinitions''
      then ok_reply Map.empty
             [[''id'' \<mapsto> JStr ''r-ga'', ''displayName'' \<mapsto> JStr ''Global Administrator''],
              [''id'' \<mapsto> JStr ''r-rd'', ''displayName'' \<mapsto> JStr ''Directory Readers'']]
      else err_reply 404)"

text \<open>The run starts on 2024-01-31T00:00:00Z, so the window starts on 2024-01-01T00:00:00Z.\<close>

text \<open>
  \<open>sleep_limit\<close> stands for \<^verbatim>\<open>time.sleep\<close> on a non-negative interval: it raises
  \<^verbatim>\<open>OverflowError\<close> when the interval in nanoseconds does not fit 64 bits. (A platform can
  refuse a shorter interval that its clock cannot reach; the properties below hold for
  any \<open>sleep_error\<close>.)
\<close>

definition sleep_limit :: "int \<Rightarrow> error option" where
  "sleep_limit s = (if 9223372036 < s then Some OverflowError else None)"

definition sample_env :: env where
  "sample_env =
     \<lparr>net = sample_net, fromisoformat = iso_basic, int_of_str = dec_int,
      sleep_error = sleep_limit, now_utc = 63842342400000000, run_ts = ''2024-01-31T000000Z''\<rparr>"

definition fresh :: world where
  "fresh = \<lparr>role_name_by_id = [], tick = 0, trace = []\<rparr>"

text \<open>
  What the directory serves from time \<open>t\<close> on, for a fetch that starts at \<open>url\<close>: after
  any finite number of throttling answers that carry an interval that \<^verbatim>\<open>int\<close> reads,
  that is not negative and that \<^verbatim>\<open>time.sleep\<close> takes, a page whose status is not one
  from 400 to 599 and whose body is a JSON object with a list of items, then the same
  from the page's next link, until a page has none. \<open>ps\<close> are the item collections of
  the pages in order, \<open>t'\<close> is the time after the last request.
\<close>

definition retry_interval :: "env \<Rightarrow> response \<Rightarrow> int option" where
  "retry_interval env r =
     int_of_str env (case retry_after r of None \<Rightarrow> ''2'' | Some h \<Rightarrow> h)"

inductive serves ::
  "env \<Rightarrow> nat \<Rightarrow> jval \<Rightarrow> (string \<times> string) list option \<Rightarrow> jobj list list \<Rightarrow> nat \<Rightarrow> bool" where
  serves_end: "\<not> truthy url \<Longrightarrow> serves env t url params [] t"
| serves_throttled:
    "truthy url \<Longrightarrow> net env t (str_of url, params) = Reply r \<Longrightarrow> status_code r = 429 \<Longrightarrow>
     retry_interval env r = Some s \<Longrightarrow> 0 \<le> s \<Longrightarrow> sleep_error env s = None \<Longrightarrow>
     serves env (Suc t) url None ps t' \<Longrightarrow> serves env t url params ps t'"
| serves_page:
    "truthy url \<Longrightarrow> net env t (str_of url, params) = Reply r \<Longrightarrow> status_code r \<noteq> 429 \<Longrightarrow>
     status_code r < 400 \<or> 600 \<le> status_code r \<Longrightarrow> body r = Json flds (Some vals) \<Longrightarrow>
     serves env (Suc t) (dict_get flds ''@odata.nextLink'') None ps t' \<Longrightarrow>
     serves env t url params (vals # ps) t'"

text \<open>The request of \<^verbatim>\<open>role_name\<close> for one id, and the replies that make it fall back.\<close>

definition per_id_request :: "jval \<Rightarrow> request" where
  "per_id_request role_def_id =
     (GRAPH @ ''/roleManagement/directory/roleDefinitions/'' @ str_of role_def_id, None)"

definition lookup_failed :: "reply \<Rightarrow> bool" where
  "lookup_failed rep =
     (case rep of
        ConnError \<Rightarrow> True
      | Reply r \<Rightarrow>
          400 \<le> status_code r
          \<or> (case body r of NotJson \<Rightarrow> True | JsonOther \<Rightarrow> True | Json flds vals \<Rightarrow> False))"

text \<open>
  A directory that throttles the first two requests (the first without a
  \<^verbatim>\<open>Retry-After\<close> header, the second asking for 3 seconds) and then serves a collection
  on two pages.
\<close>

definition throttled_reply :: "string option \<Rightarrow> reply" where
  "throttled_reply h =
     Reply \<lparr>status_code = 429, retry_after = h, body = NotJson, resp_text = []\<rparr>"

definition paged_net :: "nat \<Rightarrow> request \<Rightarrow> reply" where
  "paged_net t req =
     (if t = 0 then throttled_reply None
      else if t = 1 then throttled_reply (Some ''3'')
      else if fst req = GRAPH @ ''/things''
      then ok_reply [''@odata.nextLink'' \<mapsto> JStr (GRAPH @ ''/things?page=2'')] [sample_assignment]
      else if fst req = GRAPH @ ''/things?page=2''
      then ok_reply Map.empty [reader_assignment, standing_assignment]
      else err_reply 404)"

definition paged_env :: env where
  "paged_env = sample_env\<lparr>net := paged_net\<rparr>"

text \<open>A directory that throttles every request.\<close>

definition busy_env :: env where
  "busy_env = sample_env\<lparr>net := (\<lambda>t req. throttled_reply (Some ''1''))\<rparr>"

text \<open>
  A directory that answers every request with status 200 and a body that is not JSON,
  and one that throttles with a date in \<^verbatim>\<open>Retry-After\<close>, as HTTP allows.
\<close>

definition html_env :: env where
  "html_env = sample_env\<lparr>net := (\<lambda>t req.
     Reply \<lparr>status_code = 200, retry_after = None, body = NotJson, resp_text = ''<html></html>''\<rparr>)\<rparr>"

definition dated_env :: env where
  "dated_env = sample_env\<lparr>net := (\<lambda>t req.
     throttled_reply (Some ''Wed, 21 Oct 2015 07:28:00 GMT''))\<rparr>"

text \<open>
  A directory that answers every request with 503, and one that does so for the first
  request only; an assignment whose role-definition id is the text of a role name.
\<close>

definition down_env :: env where
  "down_env = sample_env\<lparr>net := (\<lambda>t req. err_reply 503)\<rparr>"

definition flaky_env :: env where
  "flaky_env = sample_env\<lparr>net := (\<lambda>t req. if t = 0 then err_reply 503 else sample_net t req)\<rparr>"

definition named_assignment :: jobj where
  "named_assignment =
     [''id'' \<mapsto> JStr ''a4'', ''principalId'' \<mapsto> JStr ''p4'',
      ''roleDefinitionId'' \<mapsto> JStr ''Global Administrator'',
      ''createdDateTime'' \<mapsto> JStr ''2023-05-01T00:00:00Z'']"

text \<open>A directory that gives the same reply to every request.\<close>

definition always :: "reply \<Rightarrow> env" where
  "always rep = sample_env\<lparr>net := (\<lambda>t req. rep)\<rparr>"

section \<open>Properties\<close>

subsection \<open>Loops\<close>

lemma for_each_acc:
  "for_each step xs acc w = (acc @ fst (for_each step xs [] w), snd (for_each step xs [] w))"
proof (induction xs arbitrary: acc w)
  case Nil
  show ?case by simp
next
  case (Cons x xs)
  obtain r w1 where s: "step x w = (r, w1)" by (cases "step x w")
  show ?case
  proof (cases r)
    case None
    with s Cons.IH [of acc w1] show ?thesis by simp
  next
    case (Some v)
    with s Cons.IH [of "acc @ [v]" w1] Cons.IH [of "[v]" w1] show ?thesis by simp
  qed
qed

lemma for_each_iterations:
  "fst (for_each step xs [] w) = List.map_filter (\<lambda>(x, w0, r). r) (iterations step xs w)"
proof (induction xs arbitrary: w)
  case Nil
  show ?case by (simp add: List.map_filter_simps)
next
  case (Cons x xs)
  obtain r w1 where s: "step x w = (r, w1)" by (cases "step x w")
  show ?case
  proof (cases r)
    case None
    with s Cons.IH [of w1] show ?thesis by (simp add: List.map_filter_simps)
  next
    case (Some v)
    with s Cons.IH [of w1] for_each_acc [of step xs "[v]" w1] show ?thesis
      by (simp add: List.map_filter_simps)
  qed
qed

lemma inst_keys_image: "inst_keys_of inst = key_of ` set inst"
  by (simp add: inst_keys_of_def key_of_def [abs_def])


subsection \<open>The bodies of the three loops\<close>

lemma permanent_step_Some_iff:
  "fst (permanent_step env ks a w) \<noteq> None \<longleftrightarrow>
     in_PRIV_ROLES (fst (role_name env (dict_get a ''roleDefinitionId'') w)) \<and> key_of a \<notin> ks"
  by (simp add: permanent_step_def key_of_def Let_def split: prod.splits)

lemma stale_step_Some_iff:
  "fst (stale_step env ks a w) \<noteq> None \<longleftrightarrow>
     in_PRIV_ROLES (fst (role_name env (dict_get a ''roleDefinitionId'') w)) \<and> key_of a \<notin> ks"
  by (simp add: stale_step_def key_of_def Let_def split: prod.splits)

lemma long_step_not_priv:
  "\<not> in_PRIV_ROLES (fst (role_name env (dict_get i ''roleDefinitionId'') w)) \<Longrightarrow>
     fst (long_step env i w) = None"
  by (auto simp add: long_step_def Let_def split: prod.splits)

subsection \<open>Resolution under a directory that answers the same way at any time\<close>

lemma role_name_fixed_fst:
  assumes "fixed_net env"
  shows "fst (role_name env rid w) = name_of env (role_name_by_id w) rid"
proof -
  have n: "\<And>req. net env (tick w) req = net env 0 req"
    using assms unfolding fixed_net_def by blast
  show ?thesis
    by (simp add: role_name_def name_of_def http_get_def Let_def n
        split: option.splits reply.splits body.splits)
qed

lemma role_name_fixed_cache:
  assumes "fixed_net env"
  shows "name_of env (role_name_by_id (snd (role_name env rid w))) = name_of env (role_name_by_id w)"
proof (rule ext)
  fix x
  have n: "\<And>req. net env (tick w) req = net env 0 req"
    using assms unfolding fixed_net_def by blast
  show "name_of env (role_name_by_id (snd (role_name env rid w))) x = name_of env (role_name_by_id w) x"
    by (auto simp add: role_name_def name_of_def http_get_def Let_def n update_conv'
        split: option.splits reply.splits body.splits)
qed

lemma upn_cache: "role_name_by_id (snd (upn env pid w)) = role_name_by_id w"
  by (simp add: upn_def http_get_def Let_def split: reply.splits body.splits)

lemma upn_fixed:
  assumes "fixed_net env"
  shows "fst (upn env pid w) = fst (upn env pid w')"
proof -
  have n: "\<And>v req. net env (tick v) req = net env 0 req"
    using assms unfolding fixed_net_def by blast
  show ?thesis
    by (simp add: upn_def http_get_def Let_def n split: reply.splits body.splits)
qed

lemma permanent_step_fixed:
  assumes f: "fixed_net env" and n: "cache_names env w = cache_names env w'"
  shows "fst (permanent_step env ks a w) = fst (permanent_step env ks a w')
       \<and> cache_names env (snd (permanent_step env ks a w)) = cache_names env w"
proof -
  let ?rid = "dict_get a ''roleDefinitionId''"
  obtain r w1 where r: "role_name env ?rid w = (r, w1)" by (cases "role_name env ?rid w")
  obtain r' w1' where r': "role_name env ?rid w' = (r', w1')" by (cases "role_name env ?rid w'")
  have "r = r'"
    using role_name_fixed_fst [OF f, of ?rid w] role_name_fixed_fst [OF f, of ?rid w'] r r' n
    by simp
  moreover have c: "cache_names env w1 = cache_names env w"
    using role_name_fixed_cache [OF f, of ?rid w] r by simp
  moreover have "fst (upn env (dict_get a ''principalId'') w1) = fst (upn env (dict_get a ''principalId'') w1')"
    by (rule upn_fixed [OF f])
  moreover have "cache_names env (snd (upn env (dict_get a ''principalId'') w1)) = cache_names env w"
    using c by (simp add: upn_cache)
  ultimately show ?thesis
    using r r' by (auto simp add: permanent_step_def Let_def split: prod.splits)
qed

lemma stale_step_fixed:
  assumes f: "fixed_net env" and n: "cache_names env w = cache_names env w'"
  shows "fst (stale_step env ks a w) = fst (stale_step env ks a w')
       \<and> cache_names env (snd (stale_step env ks a w)) = cache_names env w"
proof -
  let ?rid = "dict_get a ''roleDefinitionId''"
  obtain r w1 where r: "role_name env ?rid w = (r, w1)" by (cases "role_name env ?rid w")
  obtain r' w1' where r': "role_name env ?rid w' = (r', w1')" by (cases "role_name env ?rid w'")
  have "r = r'"
    using role_name_fixed_fst [OF f, of ?rid w] role_name_fixed_fst [OF f, of ?rid w'] r r' n
    by simp
  moreover have c: "cache_names env w1 = cache_names env w"
    using role_name_fixed_cache [OF f, of ?rid w] r by simp
  moreover have "fst (upn env (dict_get a ''principalId'') w1) = fst (upn env (dict_get a ''principalId'') w1')"
    by (rule upn_fixed [OF f])
  moreover have "cache_names env (snd (upn env (dict_get a ''principalId'') w1)) = cache_names env w"
    using c by (simp add: upn_cache)
  ultimately show ?thesis
    using r r' by (auto simp add: stale_step_def Let_def split: prod.splits)
qed

lemma long_step_fixed:
  assumes f: "fixed_net env" and n: "cache_names env w = cache_names env w'"
  shows "fst (long_step env a w) = fst (long_step env a w')
       \<and> cache_names env (snd (long_step env a w)) = cache_names env w"
proof -
  let ?rid = "dict_get a ''roleDefinitionId''"
  obtain r w1 where r: "role_name env ?rid w = (r, w1)" by (cases "role_name env ?rid w")
  obtain r' w1' where r': "role_name env ?rid w' = (r', w1')" by (cases "role_name env ?rid w'")
  have "r = r'"
    using role_name_fixed_fst [OF f, of ?rid w] role_name_fixed_fst [OF f, of ?rid w'] r r' n
    by simp
  moreover have c: "cache_names env w1 = cache_names env w"
    using role_name_fixed_cache [OF f, of ?rid w] r by simp
  moreover have "fst (upn env (dict_get a ''principalId'') w1) = fst (upn env (dict_get a ''principalId'') w1')"
    by (rule upn_fixed [OF f])
  moreover have "cache_names env (snd (upn env (dict_get a ''principalId'') w1)) = cache_names env w"
    using c by (simp add: upn_cache)
  ultimately show ?thesis
    using r r' by (auto simp add: long_step_def Let_def split: prod.splits option.splits)
qed

lemma for_each_stable:
  assumes inv: "\<And>x w w'. N w = N w' \<Longrightarrow>
                  fst (step x w) = fst (step x w') \<and> N (snd (step x w)) = N w"
  shows "fst (for_each step xs acc w) = acc @ List.map_filter (\<lambda>x. fst (step x w)) xs
       \<and> N (snd (for_each step xs acc w)) = N w"
proof (induction xs arbitrary: acc w)
  case Nil
  show ?case by (simp add: List.map_filter_simps)
next
  case (Cons x xs)
  obtain r w1 where s: "step x w = (r, w1)" by (cases "step x w")
  have n1: "N w1 = N w" using inv [of w w x] s by simp
  have same: "(\<lambda>y. fst (step y w1)) = (\<lambda>y. fst (step y w))"
    using inv [OF n1] by auto
  show ?case
  proof (cases r)
    case None
    with s Cons.IH [of acc w1] n1 same show ?thesis by (simp add: List.map_filter_simps)
  next
    case (Some v)
    with s Cons.IH [of "acc @ [v]" w1] n1 same show ?thesis
      by (simp add: List.map_filter_simps)
  qed
qed

lemma count_privileged_fixed:
  assumes f: "fixed_net env"
  shows "fst (count_privileged env xs n w) =
           n + length (filter (\<lambda>x. in_PRIV_ROLES (cache_names env w (dict_get x ''roleDefinitionId''))) xs)
       \<and> cache_names env (snd (count_privileged env xs n w)) = cache_names env w"
proof (induction xs arbitrary: n w)
  case Nil
  show ?case by simp
next
  case (Cons x xs)
  let ?rid = "dict_get x ''roleDefinitionId''"
  obtain r w1 where r: "role_name env ?rid w = (r, w1)" by (cases "role_name env ?rid w")
  have rv: "r = cache_names env w ?rid" using role_name_fixed_fst [OF f, of ?rid w] r by simp
  have c: "cache_names env w1 = cache_names env w" using role_name_fixed_cache [OF f, of ?rid w] r by simp
  show ?case
    using Cons.IH [of "if in_PRIV_ROLES r then n + 1 else n" w1] r rv c by simp
qed

subsection \<open>The lists of a run\<close>

lemma iterations_set:
  "(x, w0, r) \<in> set (iterations step xs w) \<Longrightarrow> x \<in> set xs \<and> r = fst (step x w0)"
  by (induction xs arbitrary: w) auto

lemma classify_permanent:
  "out_permanent (fst (classify env A E I w)) =
     fst (for_each (permanent_step env (inst_keys_of I)) A [] w)"
  by (simp add: classify_def Let_def split_beta)

lemma classify_stale:
  "out_stale (fst (classify env A E I w)) =
     fst (for_each (stale_step env (recent_keys_of I)) E []
            (snd (for_each (permanent_step env (inst_keys_of I)) A [] w)))"
  by (simp add: classify_def Let_def split_beta)

lemma classify_long:
  "out_long (fst (classify env A E I w)) =
     fst (for_each (long_step env) I []
            (snd (for_each (stale_step env (recent_keys_of I)) E []
                    (snd (for_each (permanent_step env (inst_keys_of I)) A [] w)))))"
  by (simp add: classify_def Let_def split_beta)

subsection \<open>Permanent privileged assignments\<close>

text \<open>
  Claim C1. The permanent list holds, in order, what the iterations of the loop over the
  assignments append; and in an iteration whose resolved role name is in \<open>PRIV_ROLES\<close>
  a record is appended if and only if the key (principalId, roleDefinitionId) of the
  assignment is not the key of any instance of the in-window collection. The sample
  assignment for Global Administrator is listed when no in-window instance has its key
  and is not listed when one has.
\<close>

theorem permanent_iff_key_absent:
  "out_permanent (fst (classify env A E inst w)) =
     List.map_filter (\<lambda>(a, w0, r). r) (iterations (permanent_step env (inst_keys_of inst)) A w)
   \<and> (\<forall>(a, w0, r) \<in> set (iterations (permanent_step env (inst_keys_of inst)) A w).
        in_PRIV_ROLES (fst (role_name env (dict_get a ''roleDefinitionId'') w0)) \<longrightarrow>
          (r \<noteq> None) = (key_of a \<notin> key_of ` set inst))"
proof
  show "out_permanent (fst (classify env A E inst w)) =
     List.map_filter (\<lambda>(a, w0, r). r) (iterations (permanent_step env (inst_keys_of inst)) A w)"
    by (simp add: classify_permanent for_each_iterations)
next
  show "\<forall>(a, w0, r) \<in> set (iterations (permanent_step env (inst_keys_of inst)) A w).
        in_PRIV_ROLES (fst (role_name env (dict_get a ''roleDefinitionId'') w0)) \<longrightarrow>
          (r \<noteq> None) = (key_of a \<notin> key_of ` set inst)"
  proof (clarify)
    fix a w0 r
    assume m: "(a, w0, r) \<in> set (iterations (permanent_step env (inst_keys_of inst)) A w)"
      and p: "in_PRIV_ROLES (fst (role_name env (dict_get a ''roleDefinitionId'') w0))"
    have "r = fst (permanent_step env (inst_keys_of inst) a w0)"
      using iterations_set [OF m] by simp
    then show "(r \<noteq> None) = (key_of a \<notin> key_of ` set inst)"
      using p permanent_step_Some_iff [of env "inst_keys_of inst" a w0]
      by (simp add: inst_keys_image)
  qed
qed

theorem permanent_iff_key_absent_witness:
  "in_PRIV_ROLES (fst (role_name sample_env (dict_get sample_assignment ''roleDefinitionId'') fresh))
   \<and> map pr_role (out_permanent (fst (classify sample_env [sample_assignment] [] [] fresh)))
       = [JStr ''Global Administrator'']
   \<and> fst (permanent_step sample_env (inst_keys_of []) sample_assignment fresh) \<noteq> None
   \<and> out_permanent (fst (classify sample_env [sample_assignment] [] [sample_instance] fresh)) = []
   \<and> fst (permanent_step sample_env (inst_keys_of [sample_instance]) sample_assignment fresh) = None"
proof -
  let ?step = "\<lambda>inst. permanent_step sample_env (inst_keys_of inst)"
  have p: "in_PRIV_ROLES (fst (role_name sample_env (dict_get sample_assignment ''roleDefinitionId'') fresh))"
    by code_simp
  have it: "\<And>inst. iterations (?step inst) [sample_assignment] fresh
              = [(sample_assignment, fresh, fst (?step inst sample_assignment fresh))]"
    by simp
  have k0: "key_of sample_assignment \<notin> key_of ` set []" by simp
  have k1: "key_of sample_assignment \<in> key_of ` set [sample_instance]"
    by (simp add: key_of_def dict_get_def sample_assignment_def sample_instance_def)
  have r0: "map pr_role (List.map_filter (\<lambda>(a, w0, r). r) (iterations (?step []) [sample_assignment] fresh))
              = [JStr ''Global Administrator'']"
    by code_simp
  note t0 = permanent_iff_key_absent [of sample_env "[sample_assignment]" "[]" "[]" fresh]
  note t1 = permanent_iff_key_absent [of sample_env "[sample_assignment]" "[]" "[sample_instance]" fresh]
  have s0: "fst (?step [] sample_assignment fresh) \<noteq> None"
    using t0 p k0 by (simp add: it)
  have s1: "fst (?step [sample_instance] sample_assignment fresh) = None"
    using t1 p k1 by (simp add: it)
  have l1: "out_permanent (fst (classify sample_env [sample_assignment] [] [sample_instance] fresh)) = []"
    using t1 s1 by (simp add: it List.map_filter_simps)
  show ?thesis
    using p r0 s0 s1 l1 t0 by simp
qed

lemma for_each_member:
  assumes "r \<in> set (fst (for_each step xs [] w))"
  shows "\<exists>x w0. x \<in> set xs \<and> fst (step x w0) = Some r"
proof -
  from assms obtain t where t: "t \<in> set (iterations step xs w)" and r: "(\<lambda>(x, w0, r). r) t = Some r"
    by (auto simp add: for_each_iterations List.map_filter_def)
  obtain x w0 r' where e: "t = (x, w0, r')" by (cases t)
  with t r iterations_set [of x w0 r' step xs w] show ?thesis by auto
qed

lemma permanent_step_role:
  "fst (permanent_step env ks a w) = Some r \<Longrightarrow> in_PRIV_ROLES (pr_role r)"
  by (auto simp add: permanent_step_def Let_def split: prod.splits if_splits)

lemma stale_step_role:
  "fst (stale_step env ks a w) = Some r \<Longrightarrow> in_PRIV_ROLES (se_role r)"
  by (auto simp add: stale_step_def Let_def split: prod.splits if_splits)

lemma long_step_role:
  "fst (long_step env a w) = Some r \<Longrightarrow> in_PRIV_ROLES (la_role r)"
  by (auto simp add: long_step_def Let_def split: prod.splits if_splits option.splits)

lemma card_PRIV_ROLES: "card PRIV_ROLES = 8"
proof -
  have "distinct PRIV_ROLES_list" by (simp add: PRIV_ROLES_list_def)
  then have "card (set PRIV_ROLES_list) = length PRIV_ROLES_list" by (rule distinct_card)
  then show ?thesis by (simp add: PRIV_ROLES_def PRIV_ROLES_list_def)
qed

subsection \<open>Records of other roles\<close>

text \<open>
  Claim C4. \<open>PRIV_ROLES\<close> has eight elements. A record (assignment, eligibility or
  instance) whose resolved role name is not one of them makes none of the three loop
  bodies append anything; and every record of the permanent, the stale and the
  long-activation list of a run carries a role name that is in \<open>PRIV_ROLES\<close>.
\<close>

theorem non_privileged_never_classified:
  "card PRIV_ROLES = 8
   \<and> (\<not> in_PRIV_ROLES (fst (role_name env (dict_get x ''roleDefinitionId'') w)) \<longrightarrow>
        fst (permanent_step env ks x w) = None \<and> fst (stale_step env ks x w) = None
        \<and> fst (long_step env x w) = None)
   \<and> (\<forall>r \<in> set (out_permanent (fst (classify env A E I w0))). in_PRIV_ROLES (pr_role r))
   \<and> (\<forall>r \<in> set (out_stale (fst (classify env A E I w0))). in_PRIV_ROLES (se_role r))
   \<and> (\<forall>r \<in> set (out_long (fst (classify env A E I w0))). in_PRIV_ROLES (la_role r))"
proof (intro conjI impI ballI)
  show "card PRIV_ROLES = 8" by (rule card_PRIV_ROLES)
next
  assume n: "\<not> in_PRIV_ROLES (fst (role_name env (dict_get x ''roleDefinitionId'') w))"
  show "fst (permanent_step env ks x w) = None"
    using n permanent_step_Some_iff [of env ks x w] by blast
  show "fst (stale_step env ks x w) = None"
    using n stale_step_Some_iff [of env ks x w] by blast
  show "fst (long_step env x w) = None"
    using n by (rule long_step_not_priv)
next
  fix r assume "r \<in> set (out_permanent (fst (classify env A E I w0)))"
  then show "in_PRIV_ROLES (pr_role r)"
    unfolding classify_permanent by (blast dest: for_each_member permanent_step_role)
next
  fix r assume "r \<in> set (out_stale (fst (classify env A E I w0)))"
  then show "in_PRIV_ROLES (se_role r)"
    unfolding classify_stale by (blast dest: for_each_member stale_step_role)
next
  fix r assume "r \<in> set (out_long (fst (classify env A E I w0)))"
  then show "in_PRIV_ROLES (la_role r)"
    unfolding classify_long by (blast dest: for_each_member long_step_role)
qed

theorem non_privileged_never_classified_witness:
  "\<not> in_PRIV_ROLES (fst (role_name sample_env (dict_get reader_assignment ''roleDefinitionId'') fresh))
   \<and> fst (permanent_step sample_env {} reader_assignment fresh) = None
   \<and> fst (stale_step sample_env {} reader_assignment fresh) = None
   \<and> fst (long_step sample_env reader_assignment fresh) = None
   \<and> map pr_role (out_permanent (fst (classify sample_env [reader_assignment, sample_assignment]
        [reader_eligibility, sample_eligibility] [reader_instance] fresh))) = [JStr ''Global Administrator'']
   \<and> map se_role (out_stale (fst (classify sample_env [reader_assignment, sample_assignment]
        [reader_eligibility, sample_eligibility] [reader_instance] fresh))) = [JStr ''Global Administrator'']
   \<and> out_long (fst (classify sample_env [reader_assignment, sample_assignment]
        [reader_eligibility, sample_eligibility] [reader_instance] fresh)) = []
   \<and> in_PRIV_ROLES (JStr ''Global Administrator'')"
proof -
  have n: "\<not> in_PRIV_ROLES (fst (role_name sample_env (dict_get reader_assignment ''roleDefinitionId'') fresh))"
    by code_simp
  have p: "map pr_role (out_permanent (fst (classify sample_env [reader_assignment, sample_assignment]
        [reader_eligibility, sample_eligibility] [reader_instance] fresh))) = [JStr ''Global Administrator'']"
    by code_simp
  have s: "map se_role (out_stale (fst (classify sample_env [reader_assignment, sample_assignment]
        [reader_eligibility, sample_eligibility] [reader_instance] fresh))) = [JStr ''Global Administrator'']"
    by code_simp
  have l: "map la_role (out_long (fst (classify sample_env [reader_assignment, sample_assignment]
        [reader_eligibility, sample_eligibility] [reader_instance] fresh))) = []"
    by code_simp
  note t = non_privileged_never_classified [of sample_env reader_assignment fresh "{}"
      "[reader_assignment, sample_assignment]" "[reader_eligibility, sample_eligibility]"
      "[reader_instance]" fresh]
  have g: "in_PRIV_ROLES (JStr ''Global Administrator'')"
    using t p by auto
  show ?thesis using t n p s l g by simp
qed

subsection \<open>The two key sets\<close>



subsection \<open>The window filter\<close>






lemma sample_starts:
  "parse_iso sample_env (dict_get sample_instance ''startDateTime'') = Some (Aware 63839750400000000)"
  "parse_iso sample_env (dict_get reader_instance ''startDateTime'') = Some (Aware 63839836800000000)"
  "parse_iso sample_env (dict_get early_instance ''startDateTime'') = Some (Aware 63839750399000000)"
  "parse_iso sample_env (dict_get undated_instance ''startDateTime'') = None"
  by code_simp+


subsection \<open>Rounding to binary64\<close>

lemma round_half_even_cases:
  "round_half_even x = \<lfloor>x\<rfloor> \<and> x - of_int \<lfloor>x\<rfloor> \<le> 1 / 2
   \<or> round_half_even x = \<lfloor>x\<rfloor> + 1 \<and> 1 / 2 \<le> x - of_int \<lfloor>x\<rfloor>"
  unfolding round_half_even_def Let_def by auto

lemma bitlen_powi:
  fixes p :: int
  assumes "0 < p"
  shows "(2::rat) powi (bitlen p - 1) \<le> of_int p \<and> of_int p < (2::rat) powi (bitlen p)"
proof -
  from bitlen_bounds [OF assms]
  have a: "2 ^ nat (bitlen p - 1) \<le> p" and b: "p < 2 ^ nat (bitlen p)" by auto
  have n: "1 \<le> bitlen p" using assms bitlen_eq_zero_iff [of p] bitlen_nonneg [of p] by linarith
  have "(of_int (2 ^ nat (bitlen p - 1)) :: rat) \<le> of_int p" using a by (simp only: of_int_le_iff)
  then have 1: "(2::rat) ^ nat (bitlen p - 1) \<le> of_int p" by simp
  have "(of_int p :: rat) < of_int (2 ^ nat (bitlen p))" using b by (simp only: of_int_less_iff)
  then have 2: "of_int p < (2::rat) ^ nat (bitlen p)" by simp
  have "(2::rat) powi (bitlen p - 1) = 2 ^ nat (bitlen p - 1)"
    using n by (simp add: power_int_def)
  moreover have "(2::rat) powi (bitlen p) = 2 ^ nat (bitlen p)"
    using n by (simp add: power_int_def)
  ultimately show ?thesis using 1 2 by simp
qed

lemma binexp_bounds:
  assumes "0 < a"
  shows "2 powi (binexp a) \<le> a" and "a < 2 powi (binexp a + 1)"
proof -
  obtain p q where pq: "quotient_of a = (p, q)" by (cases "quotient_of a")
  have q: "0 < q" using pq by (rule quotient_of_denom_pos)
  have a: "a = of_int p / of_int q" using pq by (rule quotient_of_div)
  have p: "0 < p" using assms q a by (simp add: zero_less_divide_iff)
  define e0 where "e0 = bitlen p - bitlen q"
  from bitlen_powi [OF p] bitlen_powi [OF q]
  have bp: "(2::rat) powi (bitlen p - 1) \<le> of_int p" "of_int p < (2::rat) powi (bitlen p)"
    and bq: "(2::rat) powi (bitlen q - 1) \<le> of_int q" "of_int q < (2::rat) powi (bitlen q)"
    by auto
  have qpos: "(0::rat) < of_int q" using q by simp
  have lo: "2 powi (e0 - 1) \<le> a"
  proof -
    have "2 powi (e0 - 1) * of_int q \<le> (2::rat) powi (e0 - 1) * 2 powi (bitlen q)"
      using bq(2) by (intro mult_left_mono) auto
    also have "\<dots> = 2 powi (bitlen p - 1)"
      by (simp add: e0_def power_int_add [symmetric])
    also have "\<dots> \<le> of_int p" by (rule bp(1))
    finally show ?thesis using qpos by (simp add: a pos_le_divide_eq)
  qed
  have hi: "a < 2 powi (e0 + 1)"
  proof -
    have "of_int p < (2::rat) powi (bitlen p)" by (rule bp(2))
    also have "\<dots> = 2 powi (e0 + 1) * 2 powi (bitlen q - 1)"
      by (simp add: e0_def power_int_add [symmetric])
    also have "\<dots> \<le> 2 powi (e0 + 1) * of_int q"
      using bq(1) by (intro mult_left_mono) auto
    finally show ?thesis using qpos by (simp add: a pos_divide_less_eq)
  qed
  have b: "binexp a = (if 2 powi e0 \<le> a then e0 else e0 - 1)"
    by (simp add: binexp_def pq e0_def Let_def)
  show "2 powi (binexp a) \<le> a" using lo by (simp add: b)
  show "a < 2 powi (binexp a + 1)" using hi by (auto simp add: b)
qed

lemma round_half_even_of_int [simp]: "round_half_even (of_int n) = n"
  by (simp add: round_half_even_def)

lemma round_half_even_mono:
  assumes "x \<le> y"
  shows "round_half_even x \<le> round_half_even y"
proof (cases "\<lfloor>x\<rfloor> = \<lfloor>y\<rfloor>")
  case True
  then show ?thesis
    using assms unfolding round_half_even_def Let_def by auto
next
  case False
  with assms have "\<lfloor>x\<rfloor> < \<lfloor>y\<rfloor>" using floor_mono [OF assms] by linarith
  then have "\<lfloor>x\<rfloor> + 1 \<le> \<lfloor>y\<rfloor>" by simp
  moreover have "round_half_even x \<le> \<lfloor>x\<rfloor> + 1"
    using round_half_even_cases [of x] by auto
  moreover have "\<lfloor>y\<rfloor> \<le> round_half_even y"
    using round_half_even_cases [of y] by auto
  ultimately show ?thesis by linarith
qed

lemma fl_pos:
  assumes "0 < a"
  shows "fl a = of_int (round_half_even (a / 2 powi (binexp a - 52))) * 2 powi (binexp a - 52)"
  using assms by (simp add: fl_def Let_def)

lemma fl_pos_bounds:
  assumes "0 < a"
  shows "2 powi (binexp a) \<le> fl a" and "fl a \<le> 2 powi (binexp a + 1)"
proof -
  define e where "e = binexp a"
  define u :: rat where "u = 2 powi (e - 52)"
  have u: "0 < u" by (simp add: u_def)
  have lo: "2 powi e \<le> a" and hi: "a < 2 powi (e + 1)"
    using binexp_bounds [OF assms] by (simp_all add: e_def)
  have e1: "(2::rat) powi e = 2 ^ 52 * u"
    using power_int_add [of "2::rat" 52 "e - 52"] by (simp add: u_def)
  have e2: "(2::rat) powi (e + 1) = 2 ^ 53 * u"
    using power_int_add [of "2::rat" 53 "e - 52"] by (simp add: u_def add.commute)
  have "2 ^ 52 \<le> a / u" using lo u by (simp add: e1 pos_le_divide_eq)
  then have "round_half_even (of_int (2 ^ 52)) \<le> round_half_even (a / u)"
    by (intro round_half_even_mono) simp
  then have r1: "(2::int) ^ 52 \<le> round_half_even (a / u)" by (simp only: round_half_even_of_int)
  have "a / u \<le> 2 ^ 53" using hi u by (simp add: e2 pos_divide_le_eq)
  then have "round_half_even (a / u) \<le> round_half_even (of_int (2 ^ 53))"
    by (intro round_half_even_mono) simp
  then have r2: "round_half_even (a / u) \<le> (2::int) ^ 53" by (simp only: round_half_even_of_int)
  have f: "fl a = of_int (round_half_even (a / u)) * u"
    using fl_pos [OF assms] by (simp add: u_def e_def)
  have "(of_int ((2::int) ^ 52) :: rat) \<le> of_int (round_half_even (a / u))"
    using r1 by (simp only: of_int_le_iff)
  then have "2 ^ 52 * u \<le> of_int (round_half_even (a / u)) * u"
    using u by (intro mult_right_mono) auto
  then show "2 powi (binexp a) \<le> fl a" by (simp add: f e1 e_def [symmetric])
  have "(of_int (round_half_even (a / u)) :: rat) \<le> of_int ((2::int) ^ 53)"
    using r2 by (simp only: of_int_le_iff)
  then have "of_int (round_half_even (a / u)) * u \<le> 2 ^ 53 * u"
    using u by (intro mult_right_mono) auto
  then show "fl a \<le> 2 powi (binexp a + 1)" by (simp add: f e2 e_def [symmetric])
qed

lemma binexp_mono:
  assumes "0 < x" "x \<le> y"
  shows "binexp x \<le> binexp y"
proof (rule ccontr)
  assume "\<not> binexp x \<le> binexp y"
  then have "binexp y + 1 \<le> binexp x" by simp
  then have "(2::rat) powi (binexp y + 1) \<le> 2 powi (binexp x)"
    by (intro power_int_increasing) auto
  moreover have "y < 2 powi (binexp y + 1)" using assms by (intro binexp_bounds) auto
  moreover have "2 powi (binexp x) \<le> x" using assms by (intro binexp_bounds) auto
  ultimately show False using assms by linarith
qed

lemma fl_mono_pos:
  assumes "0 < x" "x \<le> y"
  shows "fl x \<le> fl y"
proof (cases "binexp x = binexp y")
  case True
  have y: "0 < y" using assms by linarith
  define u :: rat where "u = 2 powi (binexp y - 52)"
  have u: "0 < u" by (simp add: u_def)
  have "x / u \<le> y / u" using assms u by (simp add: divide_right_mono)
  then have "round_half_even (x / u) \<le> round_half_even (y / u)" by (rule round_half_even_mono)
  then have "(of_int (round_half_even (x / u)) :: rat) \<le> of_int (round_half_even (y / u))"
    by (simp only: of_int_le_iff)
  then have "of_int (round_half_even (x / u)) * u \<le> of_int (round_half_even (y / u)) * u"
    using u by (intro mult_right_mono) auto
  then show ?thesis
    using fl_pos [OF assms(1)] fl_pos [OF y] True by (simp add: u_def)
next
  case False
  have y: "0 < y" using assms by linarith
  from False binexp_mono [OF assms] have "binexp x + 1 \<le> binexp y" by linarith
  then have "(2::rat) powi (binexp x + 1) \<le> 2 powi (binexp y)"
    by (intro power_int_increasing) auto
  with fl_pos_bounds(2) [OF assms(1)] fl_pos_bounds(1) [OF y] show ?thesis by linarith
qed

lemma fl_nonpos:
  assumes "x \<le> 0"
  shows "fl x \<le> 0"
proof (cases "x = 0")
  case True
  then show ?thesis by (simp add: fl_def)
next
  case False
  with assms have n: "x < 0" by simp
  define u :: rat where "u = 2 powi (binexp \<bar>x\<bar> - 52)"
  have u: "0 < u" by (simp add: u_def)
  have "0 \<le> \<bar>x\<bar> / u" using u by simp
  then have "round_half_even (of_int 0) \<le> round_half_even (\<bar>x\<bar> / u)"
    by (intro round_half_even_mono) simp
  then have "0 \<le> round_half_even (\<bar>x\<bar> / u)" by (simp only: round_half_even_of_int)
  then have "(0::rat) \<le> of_int (round_half_even (\<bar>x\<bar> / u)) * u"
    using u by simp
  moreover have "fl x = - (of_int (round_half_even (\<bar>x\<bar> / u)) * u)"
    using n by (simp add: fl_def Let_def u_def)
  ultimately show ?thesis by linarith
qed

lemma fl_mono_nonneg:
  assumes "x \<le> y" "0 < y"
  shows "fl x \<le> fl y"
proof (cases "0 < x")
  case True
  then show ?thesis using assms by (intro fl_mono_pos)
next
  case False
  then have "fl x \<le> 0" by (intro fl_nonpos) simp
  moreover have "0 \<le> fl y"
  proof -
    have "(0::rat) < 2 powi (binexp y)" by simp
    with fl_pos_bounds(1) [OF assms(2)] show ?thesis by linarith
  qed
  ultimately show ?thesis by linarith
qed

lemma fl_28800: "fl 28800 = 28800" by code_simp
lemma fl_8: "fl 8 = 8" by code_simp
lemma fl_above: "fl (28800000001 / 1000000) = 3958241860131039 / 137438953472" by code_simp
lemma fl_above2: "fl (3958241860131039 / 137438953472 / 3600) = 4503599627526871 / 562949953421312" by code_simp

lemma hours_of_le:
  assumes "td \<le> 28800000000"
  shows "hours_of td \<le> 8"
proof -
  have "(of_int td :: rat) \<le> of_int 28800000000" using assms by (simp only: of_int_le_iff)
  then have "(of_int td :: rat) / 1000000 \<le> 28800" by simp
  then have "total_seconds td \<le> fl 28800"
    unfolding total_seconds_def by (intro fl_mono_nonneg) auto
  then have "total_seconds td / 3600 \<le> 8" by (simp add: fl_28800)
  then have "hours_of td \<le> fl 8"
    unfolding hours_of_def by (intro fl_mono_nonneg) auto
  then show ?thesis by (simp add: fl_8)
qed

lemma hours_of_gt:
  assumes "28800000000 < td"
  shows "8 < hours_of td"
proof -
  have "28800000001 \<le> td" using assms by simp
  then have "(of_int 28800000001 :: rat) \<le> of_int td" by (simp only: of_int_le_iff)
  then have "(28800000001 :: rat) / 1000000 \<le> of_int td / 1000000" by simp
  then have "fl (28800000001 / 1000000) \<le> total_seconds td"
    unfolding total_seconds_def by (intro fl_mono_pos) auto
  then have "3958241860131039 / 137438953472 / 3600 \<le> total_seconds td / 3600"
    by (simp add: fl_above)
  then have "fl (3958241860131039 / 137438953472 / 3600) \<le> hours_of td"
    unfolding hours_of_def by (intro fl_mono_pos) auto
  then have "4503599627526871 / 562949953421312 \<le> hours_of td"
    unfolding fl_above2 .
  then show ?thesis by linarith
qed

lemma hours_of_gt_iff: "(8 < hours_of td) = (28800000000 < td)"
  using hours_of_le [of td] hours_of_gt [of td] by (cases "28800000000 < td") auto

subsection \<open>Long activations\<close>

lemma parse_iso_Some:
  "parse_iso env v = Some s \<longleftrightarrow> truthy v \<and> fromisoformat env (replace_Z (str_of v)) = Some s"
  by (simp add: parse_iso_def)

lemma parse_iso_None:
  "parse_iso env v = None \<longleftrightarrow> \<not> truthy v \<or> fromisoformat env (replace_Z (str_of v)) = None"
  by (simp add: parse_iso_def)

lemma long_step_parsed:
  assumes "in_PRIV_ROLES (fst (role_name env (dict_get i ''roleDefinitionId'') w))"
    and "parse_iso env (dict_get i ''startDateTime'') = Some s"
    and "parse_iso env (dict_get i ''endDateTime'') = Some e"
    and "dt_sub e s = Some td"
  shows "(fst (long_step env i w) \<noteq> None) = (of_int MAX_ACTIVATION_HOURS < hours_of td)"
    and "fst (long_step env i w) = Some r \<Longrightarrow> la_hours r = py_round2 (hours_of td)"
  using assms
  by (auto simp add: long_step_def parse_iso_Some Let_def split: prod.splits if_splits)

lemma long_step_skipped:
  assumes "parse_iso env (dict_get i ''startDateTime'') = None
           \<or> parse_iso env (dict_get i ''endDateTime'') = None
           \<or> (\<exists>s e. parse_iso env (dict_get i ''startDateTime'') = Some s
                 \<and> parse_iso env (dict_get i ''endDateTime'') = Some e \<and> dt_sub e s = None)"
  shows "fst (long_step env i w) = None"
  using assms
  by (auto simp add: long_step_def parse_iso_Some parse_iso_None Let_def
      split: prod.splits if_splits option.splits)

lemma round_half_even_close: "\<bar>x - of_int (round_half_even x)\<bar> \<le> 1 / 2"
proof -
  define f where "f = \<lfloor>x\<rfloor>"
  have a: "of_int f \<le> x" "x < of_int f + 1" unfolding f_def by linarith+
  from round_half_even_cases [of x]
  have "round_half_even x = f \<and> x - of_int f \<le> 1 / 2
        \<or> round_half_even x = f + 1 \<and> 1 / 2 \<le> x - of_int f"
    unfolding f_def .
  then show ?thesis
  proof
    assume "round_half_even x = f \<and> x - of_int f \<le> 1 / 2"
    with a show ?thesis by (simp add: abs_if)
  next
    assume "round_half_even x = f + 1 \<and> 1 / 2 \<le> x - of_int f"
    with a show ?thesis by (simp add: abs_if)
  qed
qed

lemma py_round2_close:
  "\<exists>k. py_round2 x = fl (of_int k / 100) \<and> \<bar>x - of_int k / 100\<bar> \<le> 1 / 200"
proof -
  let ?k = "round_half_even (x * 100)"
  have "\<bar>x * 100 - of_int ?k\<bar> \<le> 1 / 2" by (rule round_half_even_close)
  then have "\<bar>x - of_int ?k / 100\<bar> \<le> 1 / 200"
    by (simp add: abs_if field_simps split: if_splits)
  then show ?thesis by (auto simp add: py_round2_def)
qed

text \<open>
  Claim C2. \<open>MAX_ACTIVATION_HOURS\<close> is 8, and the float of the hours exceeds it exactly
  when the duration exceeds eight hours. For an instance whose resolved role name is in
  \<open>PRIV_ROLES\<close> and whose start and end texts both parse, with a difference \<open>td\<close>, the
  body of the loop appends a record if and only if the hours of \<open>td\<close> exceed
  \<open>MAX_ACTIVATION_HOURS\<close>, and the record holds these hours rounded to two decimals: the
  float of a multiple of 1/100 that is at most 1/200 away. An instance with a missing or
  unparsable start or end, or one whose end and start cannot be subtracted, appends
  nothing; the body has no other outcome. The long-activation list is what the
  iterations over the in-window instances append. For the start 2024-01-01T00:00:00Z and
  the end 2024-01-01T09:30:00Z the hours are 9.5 and the instance is listed.
\<close>

theorem long_activation:
  "MAX_ACTIVATION_HOURS = 8
   \<and> (of_int MAX_ACTIVATION_HOURS < hours_of td) = (8 * 3600 * 1000000 < td)
   \<and> (\<exists>k. py_round2 (hours_of td) = fl (of_int k / 100)
          \<and> \<bar>hours_of td - of_int k / 100\<bar> \<le> 1 / 200)
   \<and> (in_PRIV_ROLES (fst (role_name env (dict_get i ''roleDefinitionId'') w))
        \<and> parse_iso env (dict_get i ''startDateTime'') = Some s
        \<and> parse_iso env (dict_get i ''endDateTime'') = Some e
        \<and> dt_sub e s = Some td \<longrightarrow>
          (fst (long_step env i w) \<noteq> None) = (of_int MAX_ACTIVATION_HOURS < hours_of td)
          \<and> (\<forall>r. fst (long_step env i w) = Some r \<longrightarrow> la_hours r = py_round2 (hours_of td)))
   \<and> (parse_iso env (dict_get i ''startDateTime'') = None
        \<or> parse_iso env (dict_get i ''endDateTime'') = None
        \<or> (\<exists>s e. parse_iso env (dict_get i ''startDateTime'') = Some s
              \<and> parse_iso env (dict_get i ''endDateTime'') = Some e \<and> dt_sub e s = None) \<longrightarrow>
          fst (long_step env i w) = None)
   \<and> out_long (fst (classify env A E inst w0)) =
        List.map_filter (\<lambda>(i, w1, r). r)
          (iterations (long_step env) inst
             (snd (for_each (stale_step env (recent_keys_of inst)) E []
                     (snd (for_each (permanent_step env (inst_keys_of inst)) A [] w0)))))"
proof (intro conjI impI allI)
  show "MAX_ACTIVATION_HOURS = 8" by (simp add: MAX_ACTIVATION_HOURS_def)
  show "(of_int MAX_ACTIVATION_HOURS < hours_of td) = (8 * 3600 * 1000000 < td)"
    using hours_of_gt_iff [of td] by (simp add: MAX_ACTIVATION_HOURS_def)
  show "\<exists>k. py_round2 (hours_of td) = fl (of_int k / 100)
          \<and> \<bar>hours_of td - of_int k / 100\<bar> \<le> 1 / 200"
    by (rule py_round2_close)
  show "out_long (fst (classify env A E inst w0)) =
        List.map_filter (\<lambda>(i, w1, r). r)
          (iterations (long_step env) inst
             (snd (for_each (stale_step env (recent_keys_of inst)) E []
                     (snd (for_each (permanent_step env (inst_keys_of inst)) A [] w0)))))"
    by (simp add: classify_long for_each_iterations)
next
  assume a: "in_PRIV_ROLES (fst (role_name env (dict_get i ''roleDefinitionId'') w))
        \<and> parse_iso env (dict_get i ''startDateTime'') = Some s
        \<and> parse_iso env (dict_get i ''endDateTime'') = Some e
        \<and> dt_sub e s = Some td"
  then show "(fst (long_step env i w) \<noteq> None) = (of_int MAX_ACTIVATION_HOURS < hours_of td)"
    by (intro long_step_parsed(1) [of env i w s e td]) simp_all
  fix r assume "fst (long_step env i w) = Some r"
  with a show "la_hours r = py_round2 (hours_of td)"
    by (intro long_step_parsed(2) [of env i w s e td r]) simp_all
next
  assume "parse_iso env (dict_get i ''startDateTime'') = None
        \<or> parse_iso env (dict_get i ''endDateTime'') = None
        \<or> (\<exists>s e. parse_iso env (dict_get i ''startDateTime'') = Some s
              \<and> parse_iso env (dict_get i ''endDateTime'') = Some e \<and> dt_sub e s = None)"
  then show "fst (long_step env i w) = None" by (rule long_step_skipped)
qed

lemma sample_ends:
  "parse_iso sample_env (dict_get sample_instance ''endDateTime'') = Some (Aware 63839784600000000)"
  "parse_iso sample_env (dict_get undated_instance ''endDateTime'') = None"
  by code_simp+

theorem long_activation_witness:
  "in_PRIV_ROLES (fst (role_name sample_env (dict_get sample_instance ''roleDefinitionId'') fresh))
   \<and> parse_iso sample_env (dict_get sample_instance ''startDateTime'') = Some (Aware 63839750400000000)
   \<and> parse_iso sample_env (dict_get sample_instance ''endDateTime'') = Some (Aware 63839784600000000)
   \<and> dt_sub (Aware 63839784600000000) (Aware 63839750400000000) = Some 34200000000
   \<and> hours_of 34200000000 = 19 / 2
   \<and> fst (long_step sample_env sample_instance fresh) \<noteq> None
   \<and> map_option la_hours (fst (long_step sample_env sample_instance fresh)) = Some (19 / 2)
   \<and> \<not> of_int MAX_ACTIVATION_HOURS < hours_of 28800000000
   \<and> parse_iso sample_env (dict_get undated_instance ''endDateTime'') = None
   \<and> fst (long_step sample_env undated_instance fresh) = None"
proof -
  have p: "in_PRIV_ROLES (fst (role_name sample_env (dict_get sample_instance ''roleDefinitionId'') fresh))"
    by code_simp
  have d: "dt_sub (Aware 63839784600000000) (Aware 63839750400000000) = Some 34200000000"
    by simp
  have h: "hours_of 34200000000 = 19 / 2" by code_simp
  have r: "py_round2 (19 / 2) = 19 / 2" by code_simp
  note t = long_activation [of 34200000000 sample_env sample_instance fresh
      "Aware 63839750400000000" "Aware 63839784600000000" "[]" "[]" "[]" fresh]
  note t8 = long_activation [of 28800000000 sample_env undated_instance fresh
      "Aware 0" "Aware 0" "[]" "[]" "[]" fresh]
  from t p d sample_starts(1) sample_ends(1)
  have c: "(fst (long_step sample_env sample_instance fresh) \<noteq> None)
             = (of_int MAX_ACTIVATION_HOURS < hours_of 34200000000)"
    and v: "\<forall>r. fst (long_step sample_env sample_instance fresh) = Some r
              \<longrightarrow> la_hours r = py_round2 (hours_of 34200000000)"
    by blast+
  have c': "fst (long_step sample_env sample_instance fresh) \<noteq> None"
    using c t by (simp add: h)
  then obtain rec where rec: "fst (long_step sample_env sample_instance fresh) = Some rec"
    by blast
  with v have "la_hours rec = 19 / 2" by (simp add: h r)
  with rec have m: "map_option la_hours (fst (long_step sample_env sample_instance fresh)) = Some (19 / 2)"
    by simp
  from t8 have e: "\<not> of_int MAX_ACTIVATION_HOURS < hours_of 28800000000" by simp
  from t8 sample_ends(2) have u: "fst (long_step sample_env undated_instance fresh) = None"
    by blast
  from p d h c' m e u show ?thesis by (simp add: sample_starts sample_ends)
qed

subsection \<open>The run under a directory that answers the same way at any time\<close>

lemma classify_metrics_lengths:
  "permanent_privileged_assignments (out_metrics (fst (classify env A E I w)))
     = length (out_permanent (fst (classify env A E I w)))"
  "stale_eligibilities_90d (out_metrics (fst (classify env A E I w)))
     = length (out_stale (fst (classify env A E I w)))"
  "long_activations_over_8h (out_metrics (fst (classify env A E I w)))
     = length (out_long (fst (classify env A E I w)))"
  "activations_last_30d (out_metrics (fst (classify env A E I w))) = length I"
  "timestamp (out_metrics (fst (classify env A E I w))) = run_ts env"
  "privileged_roles_tracked (out_metrics (fst (classify env A E I w))) = sort PRIV_ROLES_list"
  by (simp_all add: classify_def Let_def split_beta)

lemma classify_fixed:
  assumes f: "fixed_net env"
  shows "out_permanent (fst (classify env A E I w))
           = List.map_filter (\<lambda>a. fst (permanent_step env (inst_keys_of I) a w)) A"
    and "out_stale (fst (classify env A E I w))
           = List.map_filter (\<lambda>e. fst (stale_step env (recent_keys_of I) e w)) E"
    and "out_long (fst (classify env A E I w))
           = List.map_filter (\<lambda>i. fst (long_step env i w)) I"
    and "active_privileged_assignments (out_metrics (fst (classify env A E I w)))
           = length (filter (\<lambda>x. in_PRIV_ROLES (cache_names env w (dict_get x ''roleDefinitionId''))) A)"
    and "eligible_privileged_users (out_metrics (fst (classify env A E I w)))
           = length (filter (\<lambda>x. in_PRIV_ROLES (cache_names env w (dict_get x ''roleDefinitionId''))) E)"
    and "cache_names env (snd (classify env A E I w)) = cache_names env w"
proof -
  let ?N = "\<lambda>v. name_of env (role_name_by_id v)"
  define w1 where "w1 = snd (for_each (permanent_step env (inst_keys_of I)) A [] w)"
  define w2 where "w2 = snd (for_each (stale_step env (recent_keys_of I)) E [] w1)"
  define w3 where "w3 = snd (for_each (long_step env) I [] w2)"
  define w4 where "w4 = snd (count_privileged env A 0 w3)"
  define w5 where "w5 = snd (count_privileged env E 0 w4)"
  have P: "fst (for_each (permanent_step env (inst_keys_of I)) A [] w)
             = List.map_filter (\<lambda>a. fst (permanent_step env (inst_keys_of I) a w)) A"
    and n1: "?N w1 = ?N w"
    using for_each_stable [where N = ?N and step = "permanent_step env (inst_keys_of I)"
        and xs = A and acc = "[]" and w = w, OF permanent_step_fixed [OF f]]
    by (simp_all add: w1_def)
  have "fst (for_each (stale_step env (recent_keys_of I)) E [] w1)
             = List.map_filter (\<lambda>e. fst (stale_step env (recent_keys_of I) e w1)) E"
    and n2': "?N w2 = ?N w1"
    using for_each_stable [where N = ?N and step = "stale_step env (recent_keys_of I)"
        and xs = E and acc = "[]" and w = w1, OF stale_step_fixed [OF f]]
    by (simp_all add: w2_def)
  moreover have "(\<lambda>e. fst (stale_step env (recent_keys_of I) e w1))
                  = (\<lambda>e. fst (stale_step env (recent_keys_of I) e w))"
    using stale_step_fixed [OF f n1] by auto
  ultimately have S: "fst (for_each (stale_step env (recent_keys_of I)) E [] w1)
             = List.map_filter (\<lambda>e. fst (stale_step env (recent_keys_of I) e w)) E"
    by simp
  have n2: "?N w2 = ?N w" using n1 n2' by simp
  have "fst (for_each (long_step env) I [] w2)
             = List.map_filter (\<lambda>i. fst (long_step env i w2)) I"
    and n3': "?N w3 = ?N w2"
    using for_each_stable [where N = ?N and step = "long_step env"
        and xs = I and acc = "[]" and w = w2, OF long_step_fixed [OF f]]
    by (simp_all add: w3_def)
  moreover have "(\<lambda>i. fst (long_step env i w2)) = (\<lambda>i. fst (long_step env i w))"
    using long_step_fixed [OF f n2] by auto
  ultimately have L: "fst (for_each (long_step env) I [] w2)
             = List.map_filter (\<lambda>i. fst (long_step env i w)) I"
    by simp
  have n3: "?N w3 = ?N w" using n2 n3' by simp
  have CA: "fst (count_privileged env A 0 w3)
             = length (filter (\<lambda>x. in_PRIV_ROLES (?N w (dict_get x ''roleDefinitionId''))) A)"
    and n4: "?N w4 = ?N w"
    using count_privileged_fixed [OF f, of A 0 w3] n3 by (simp_all add: w4_def)
  have CE: "fst (count_privileged env E 0 w4)
             = length (filter (\<lambda>x. in_PRIV_ROLES (?N w (dict_get x ''roleDefinitionId''))) E)"
    and n5: "?N w5 = ?N w"
    using count_privileged_fixed [OF f, of E 0 w4] n4 by (simp_all add: w5_def)
  show "out_permanent (fst (classify env A E I w))
           = List.map_filter (\<lambda>a. fst (permanent_step env (inst_keys_of I) a w)) A"
    using P by (simp add: classify_permanent)
  show "out_stale (fst (classify env A E I w))
           = List.map_filter (\<lambda>e. fst (stale_step env (recent_keys_of I) e w)) E"
    using S by (simp add: classify_stale w1_def)
  show "out_long (fst (classify env A E I w))
           = List.map_filter (\<lambda>i. fst (long_step env i w)) I"
    using L by (simp add: classify_long w1_def w2_def)
  show "active_privileged_assignments (out_metrics (fst (classify env A E I w)))
           = length (filter (\<lambda>x. in_PRIV_ROLES (cache_names env w (dict_get x ''roleDefinitionId''))) A)"
    using CA by (simp add: classify_def Let_def split_beta w1_def w2_def w3_def)
  show "eligible_privileged_users (out_metrics (fst (classify env A E I w)))
           = length (filter (\<lambda>x. in_PRIV_ROLES (cache_names env w (dict_get x ''roleDefinitionId''))) E)"
    using CE by (simp add: classify_def Let_def split_beta w1_def w2_def w3_def w4_def)
  show "cache_names env (snd (classify env A E I w)) = cache_names env w"
    using n5 by (simp add: classify_def Let_def split_beta w1_def w2_def w3_def w4_def w5_def)
qed

lemma length_map_filter_le:
  assumes "\<And>x. f x \<noteq> None \<Longrightarrow> P x"
  shows "length (List.map_filter f xs) \<le> length (filter P xs)"
  using assms by (induction xs) (auto simp add: List.map_filter_simps split: option.splits)

lemma fixed_net_sample: "fixed_net sample_env"
  by (simp add: fixed_net_def sample_env_def sample_net_def)

lemma sample_counts:
  "length (out_permanent (fst (classify sample_env
      [sample_assignment, reader_assignment, standing_assignment] [] [sample_instance] fresh))) = 1"
  "active_privileged_assignments (out_metrics (fst (classify sample_env
      [sample_assignment, reader_assignment, standing_assignment] [] [sample_instance] fresh))) = 2"
  by code_simp+

text \<open>
  Claim C5. When the directory answers a request the same way at any time, the count of
  privileged assignments in the metrics, obtained by resolving the role of every
  assignment again, is at least the length of the permanent list (which is the metrics'
  own count of permanent assignments); and there are inputs on which it is larger.
\<close>

theorem active_count_ge_permanent:
  "(fixed_net env \<longrightarrow>
      length (out_permanent (fst (classify env A E I w)))
        \<le> active_privileged_assignments (out_metrics (fst (classify env A E I w)))
      \<and> permanent_privileged_assignments (out_metrics (fst (classify env A E I w)))
        = length (out_permanent (fst (classify env A E I w))))
   \<and> (\<exists>env' A' E' I' w'. fixed_net env'
        \<and> length (out_permanent (fst (classify env' A' E' I' w')))
            < active_privileged_assignments (out_metrics (fst (classify env' A' E' I' w'))))"
proof (intro conjI impI)
  assume f: "fixed_net env"
  have "\<And>a. fst (permanent_step env (inst_keys_of I) a w) \<noteq> None \<Longrightarrow>
          in_PRIV_ROLES (cache_names env w (dict_get a ''roleDefinitionId''))"
    using permanent_step_Some_iff [of env "inst_keys_of I" _ w] role_name_fixed_fst [OF f, of _ w]
    by simp
  then have "length (List.map_filter (\<lambda>a. fst (permanent_step env (inst_keys_of I) a w)) A)
          \<le> length (filter (\<lambda>x. in_PRIV_ROLES (cache_names env w (dict_get x ''roleDefinitionId''))) A)"
    by (rule length_map_filter_le)
  then show "length (out_permanent (fst (classify env A E I w)))
        \<le> active_privileged_assignments (out_metrics (fst (classify env A E I w)))"
    by (simp add: classify_fixed(1) [OF f] classify_fixed(4) [OF f])
  show "permanent_privileged_assignments (out_metrics (fst (classify env A E I w)))
        = length (out_permanent (fst (classify env A E I w)))"
    by (rule classify_metrics_lengths)
next
  have "length (out_permanent (fst (classify sample_env
      [sample_assignment, reader_assignment, standing_assignment] [] [sample_instance] fresh)))
    < active_privileged_assignments (out_metrics (fst (classify sample_env
      [sample_assignment, reader_assignment, standing_assignment] [] [sample_instance] fresh)))"
    by (simp add: sample_counts)
  with fixed_net_sample show "\<exists>env' A' E' I' w'. fixed_net env'
        \<and> length (out_permanent (fst (classify env' A' E' I' w')))
            < active_privileged_assignments (out_metrics (fst (classify env' A' E' I' w')))"
    by blast
qed

theorem active_count_ge_permanent_witness:
  "fixed_net sample_env
   \<and> length (out_permanent (fst (classify sample_env
        [sample_assignment, reader_assignment, standing_assignment] [] [sample_instance] fresh)))
       \<le> active_privileged_assignments (out_metrics (fst (classify sample_env
        [sample_assignment, reader_assignment, standing_assignment] [] [sample_instance] fresh)))
   \<and> permanent_privileged_assignments (out_metrics (fst (classify sample_env
        [sample_assignment, reader_assignment, standing_assignment] [] [sample_instance] fresh))) = 1
   \<and> active_privileged_assignments (out_metrics (fst (classify sample_env
        [sample_assignment, reader_assignment, standing_assignment] [] [sample_instance] fresh))) = 2"
proof -
  note t = active_count_ge_permanent [of sample_env
      "[sample_assignment, reader_assignment, standing_assignment]" "[]" "[sample_instance]" fresh]
  from t fixed_net_sample have
    "length (out_permanent (fst (classify sample_env
        [sample_assignment, reader_assignment, standing_assignment] [] [sample_instance] fresh)))
       \<le> active_privileged_assignments (out_metrics (fst (classify sample_env
        [sample_assignment, reader_assignment, standing_assignment] [] [sample_instance] fresh)))"
    "permanent_privileged_assignments (out_metrics (fst (classify sample_env
        [sample_assignment, reader_assignment, standing_assignment] [] [sample_instance] fresh)))
       = length (out_permanent (fst (classify sample_env
        [sample_assignment, reader_assignment, standing_assignment] [] [sample_instance] fresh)))"
    by blast+
  with fixed_net_sample show ?thesis by (simp add: sample_counts)
qed

subsection \<open>Running the classification again\<close>

lemma http_get_run_ts: "http_get (env\<lparr>run_ts := t\<rparr>) = http_get env"
  by (intro ext) (simp add: http_get_def)

lemma role_name_run_ts: "role_name (env\<lparr>run_ts := t\<rparr>) = role_name env"
  by (intro ext) (simp only: role_name_def http_get_run_ts)

lemma upn_run_ts: "upn (env\<lparr>run_ts := t\<rparr>) = upn env"
  by (intro ext) (simp only: upn_def http_get_run_ts)

lemma permanent_step_run_ts: "permanent_step (env\<lparr>run_ts := t\<rparr>) = permanent_step env"
  by (intro ext) (simp only: permanent_step_def role_name_run_ts upn_run_ts)

lemma stale_step_run_ts: "stale_step (env\<lparr>run_ts := t\<rparr>) = stale_step env"
  by (intro ext) (simp only: stale_step_def role_name_run_ts upn_run_ts)

lemma fromisoformat_run_ts: "fromisoformat (env\<lparr>run_ts := t\<rparr>) = fromisoformat env"
  by simp

lemma long_step_run_ts: "long_step (env\<lparr>run_ts := t\<rparr>) = long_step env"
  by (intro ext) (simp only: long_step_def role_name_run_ts upn_run_ts fromisoformat_run_ts)

lemma count_privileged_run_ts:
  "count_privileged (env\<lparr>run_ts := t\<rparr>) xs n w = count_privileged env xs n w"
  by (induction xs arbitrary: n w) (simp_all add: role_name_run_ts split_beta)

lemma classify_run_ts:
  "fst (classify (env\<lparr>run_ts := t\<rparr>) A E I w)
     = (fst (classify env A E I w))
         \<lparr>out_metrics := (out_metrics (fst (classify env A E I w)))\<lparr>timestamp := t\<rparr>\<rparr>"
  by (simp add: classify_def Let_def split_beta permanent_step_run_ts stale_step_run_ts
      long_step_run_ts count_privileged_run_ts)

lemma classify_fixed_same:
  assumes f: "fixed_net env" and n: "cache_names env w' = cache_names env w"
  shows "fst (classify env A E I w') = fst (classify env A E I w)"
proof -
  have p: "(\<lambda>a. fst (permanent_step env (inst_keys_of I) a w'))
             = (\<lambda>a. fst (permanent_step env (inst_keys_of I) a w))"
    using permanent_step_fixed [OF f n] by auto
  have s: "(\<lambda>a. fst (stale_step env (recent_keys_of I) a w'))
             = (\<lambda>a. fst (stale_step env (recent_keys_of I) a w))"
    using stale_step_fixed [OF f n] by auto
  have l: "(\<lambda>a. fst (long_step env a w')) = (\<lambda>a. fst (long_step env a w))"
    using long_step_fixed [OF f n] by auto
  have "out_permanent (fst (classify env A E I w')) = out_permanent (fst (classify env A E I w))"
    by (simp add: classify_fixed(1) [OF f] p)
  moreover have "out_stale (fst (classify env A E I w')) = out_stale (fst (classify env A E I w))"
    by (simp add: classify_fixed(2) [OF f] s)
  moreover have "out_long (fst (classify env A E I w')) = out_long (fst (classify env A E I w))"
    by (simp add: classify_fixed(3) [OF f] l)
  moreover have "out_metrics (fst (classify env A E I w')) = out_metrics (fst (classify env A E I w))"
  proof (rule metrics.equality)
    show "active_privileged_assignments (out_metrics (fst (classify env A E I w')))
          = active_privileged_assignments (out_metrics (fst (classify env A E I w)))"
      by (simp add: classify_fixed(4) [OF f] n)
    show "eligible_privileged_users (out_metrics (fst (classify env A E I w')))
          = eligible_privileged_users (out_metrics (fst (classify env A E I w)))"
      by (simp add: classify_fixed(5) [OF f] n)
    show "permanent_privileged_assignments (out_metrics (fst (classify env A E I w')))
          = permanent_privileged_assignments (out_metrics (fst (classify env A E I w)))"
      by (simp add: classify_metrics_lengths classify_fixed(1) [OF f] p)
    show "stale_eligibilities_90d (out_metrics (fst (classify env A E I w')))
          = stale_eligibilities_90d (out_metrics (fst (classify env A E I w)))"
      by (simp add: classify_metrics_lengths classify_fixed(2) [OF f] s)
    show "long_activations_over_8h (out_metrics (fst (classify env A E I w')))
          = long_activations_over_8h (out_metrics (fst (classify env A E I w)))"
      by (simp add: classify_metrics_lengths classify_fixed(3) [OF f] l)
  qed (simp_all add: classify_metrics_lengths classify_def Let_def split_beta)
  ultimately show ?thesis by (intro outputs.equality) (simp_all add: classify_def Let_def split_beta)
qed

text \<open>
  Claim C6. With a directory that answers a request the same way at any time, a second
  classification of the same three collections, started with the same cache as the
  first (a new process) or in the state the first one left (the same process), and at a
  run time that may differ, gives the same permanent, stale and long-activation lists
  and the same metrics apart from the timestamp.
\<close>

theorem classification_deterministic:
  "fixed_net env
   \<and> (role_name_by_id w' = role_name_by_id w \<or> w' = snd (classify env A E I w)) \<longrightarrow>
      out_permanent (fst (classify (env\<lparr>run_ts := t\<rparr>) A E I w'))
        = out_permanent (fst (classify env A E I w))
      \<and> out_stale (fst (classify (env\<lparr>run_ts := t\<rparr>) A E I w'))
        = out_stale (fst (classify env A E I w))
      \<and> out_long (fst (classify (env\<lparr>run_ts := t\<rparr>) A E I w'))
        = out_long (fst (classify env A E I w))
      \<and> out_metrics (fst (classify (env\<lparr>run_ts := t\<rparr>) A E I w'))
        = (out_metrics (fst (classify env A E I w)))\<lparr>timestamp := t\<rparr>"
proof (intro impI)
  assume a: "fixed_net env
   \<and> (role_name_by_id w' = role_name_by_id w \<or> w' = snd (classify env A E I w))"
  then have f: "fixed_net env" by simp
  from a have "cache_names env w' = cache_names env w"
    using classify_fixed(6) [OF f, of A E I w] by auto
  then have "fst (classify env A E I w') = fst (classify env A E I w)"
    by (rule classify_fixed_same [OF f])
  then show "out_permanent (fst (classify (env\<lparr>run_ts := t\<rparr>) A E I w'))
        = out_permanent (fst (classify env A E I w))
      \<and> out_stale (fst (classify (env\<lparr>run_ts := t\<rparr>) A E I w'))
        = out_stale (fst (classify env A E I w))
      \<and> out_long (fst (classify (env\<lparr>run_ts := t\<rparr>) A E I w'))
        = out_long (fst (classify env A E I w))
      \<and> out_metrics (fst (classify (env\<lparr>run_ts := t\<rparr>) A E I w'))
        = (out_metrics (fst (classify env A E I w)))\<lparr>timestamp := t\<rparr>"
    by (simp add: classify_run_ts)
qed

theorem classification_deterministic_witness:
  "fixed_net sample_env
   \<and> role_name_by_id (fresh\<lparr>tick := 7\<rparr>) = role_name_by_id fresh
   \<and> out_permanent (fst (classify (sample_env\<lparr>run_ts := ''2024-02-01T000000Z''\<rparr>)
        [sample_assignment, standing_assignment] [sample_eligibility] [sample_instance]
        (fresh\<lparr>tick := 7\<rparr>)))
       = out_permanent (fst (classify sample_env
        [sample_assignment, standing_assignment] [sample_eligibility] [sample_instance] fresh))
   \<and> out_metrics (fst (classify (sample_env\<lparr>run_ts := ''2024-02-01T000000Z''\<rparr>)
        [sample_assignment, standing_assignment] [sample_eligibility] [sample_instance]
        (snd (classify sample_env
          [sample_assignment, standing_assignment] [sample_eligibility] [sample_instance] fresh))))
       = (out_metrics (fst (classify sample_env
        [sample_assignment, standing_assignment] [sample_eligibility] [sample_instance] fresh)))
         \<lparr>timestamp := ''2024-02-01T000000Z''\<rparr>
   \<and> map pr_assignmentId (out_permanent (fst (classify sample_env
        [sample_assignment, standing_assignment] [sample_eligibility] [sample_instance] fresh)))
       = [JStr ''a3'']"
proof -
  let ?A = "[sample_assignment, standing_assignment]"
  let ?E = "[sample_eligibility]"
  let ?I = "[sample_instance]"
  have c: "role_name_by_id (fresh\<lparr>tick := 7\<rparr>) = role_name_by_id fresh" by simp
  have v: "map pr_assignmentId (out_permanent (fst (classify sample_env ?A ?E ?I fresh)))
       = [JStr ''a3'']"
    by code_simp
  note t1 = classification_deterministic [of sample_env "fresh\<lparr>tick := 7\<rparr>" fresh ?A ?E ?I
      "''2024-02-01T000000Z''"]
  note t2 = classification_deterministic [of sample_env "snd (classify sample_env ?A ?E ?I fresh)"
      fresh ?A ?E ?I "''2024-02-01T000000Z''"]
  from t1 fixed_net_sample c have
    "out_permanent (fst (classify (sample_env\<lparr>run_ts := ''2024-02-01T000000Z''\<rparr>) ?A ?E ?I
        (fresh\<lparr>tick := 7\<rparr>))) = out_permanent (fst (classify sample_env ?A ?E ?I fresh))"
    by blast
  moreover from t2 fixed_net_sample have
    "out_metrics (fst (classify (sample_env\<lparr>run_ts := ''2024-02-01T000000Z''\<rparr>) ?A ?E ?I
        (snd (classify sample_env ?A ?E ?I fresh))))
       = (out_metrics (fst (classify sample_env ?A ?E ?I fresh)))
         \<lparr>timestamp := ''2024-02-01T000000Z''\<rparr>"
    by blast
  ultimately show ?thesis using fixed_net_sample c v by blast
qed

subsection \<open>The paginated fetch\<close>

lemma tick_emit [simp]: "tick (emit ev w) = tick w"
  by (simp add: emit_def)

lemma cache_emit [simp]: "role_name_by_id (emit ev w) = role_name_by_id w"
  by (simp add: emit_def)

lemma http_get_simps [simp]:
  "fst (http_get env req w) = net env (tick w) req"
  "tick (snd (http_get env req w)) = Suc (tick w)"
  "role_name_by_id (snd (http_get env req w)) = role_name_by_id w"
  by (simp_all add: http_get_def Let_def)

lemma http_get_reply:
  "http_get env req w = (net env (tick w) req, snd (http_get env req w))"
  by (simp add: http_get_def Let_def)

lemma gget_loop_throttled:
  assumes "truthy url" and "net env (tick w) (str_of url, params) = Reply r"
    and "status_code r = 429" and "retry_interval env r = Some s" and "0 \<le> s"
    and "sleep_error env s = None"
  shows "gget_loop env (Suc n) url params items w =
           gget_loop env n url None items
             (emit (Sleep s) (emit (Print (Throttled s)) (snd (http_get env (str_of url, params) w))))"
proof -
  obtain rep w1 where h: "http_get env (str_of url, params) w = (rep, w1)"
    by (cases "http_get env (str_of url, params) w")
  then have rep: "rep = Reply r"
    using assms(2) http_get_simps(1) [of env "(str_of url, params)" w] by simp
  with h assms show ?thesis
    by (simp add: retry_interval_def Let_def)
qed

lemma gget_loop_page:
  assumes "truthy url" and "net env (tick w) (str_of url, params) = Reply r"
    and "status_code r \<noteq> 429" and "status_code r < 400" and "body r = Json flds (Some vals)"
  shows "gget_loop env (Suc n) url params items w =
           gget_loop env n (dict_get flds ''@odata.nextLink'') None (items @ vals)
             (snd (http_get env (str_of url, params) w))"
proof -
  obtain rep w1 where h: "http_get env (str_of url, params) w = (rep, w1)"
    by (cases "http_get env (str_of url, params) w")
  then have rep: "rep = Reply r"
    using assms(2) http_get_simps(1) [of env "(str_of url, params)" w] by simp
  with h assms show ?thesis
    by (simp add: Let_def)
qed

lemma gget_loop_error:
  assumes "truthy url" and "net env (tick w) (str_of url, params) = Reply r"
    and "status_code r \<noteq> 429" and "400 \<le> status_code r" and "status_code r < 600"
  shows "gget_loop env (Suc n) url params items w =
           (Some (Inl (HTTPError (status_code r))),
            emit (Print (case body r of
                           NotJson \<Rightarrow> GraphErrorText (status_code r) (take 800 (resp_text r))
                         | _ \<Rightarrow> GraphErrorJson (status_code r) (body r)))
              (snd (http_get env (str_of url, params) w)))"
proof -
  obtain rep w1 where h: "http_get env (str_of url, params) w = (rep, w1)"
    by (cases "http_get env (str_of url, params) w")
  then have rep: "rep = Reply r"
    using assms(2) http_get_simps(1) [of env "(str_of url, params)" w] by simp
  with h assms show ?thesis
    by (simp add: Let_def split: body.splits)
qed

lemma gget_loop_request_raises:
  assumes "truthy url" and "net env (tick w) (str_of url, params) = ConnError"
  shows "gget_loop env (Suc n) url params items w =
           (Some (Inl RequestException), snd (http_get env (str_of url, params) w))"
proof -
  obtain rep w1 where h: "http_get env (str_of url, params) w = (rep, w1)"
    by (cases "http_get env (str_of url, params) w")
  then have rep: "rep = ConnError"
    using assms(2) http_get_simps(1) [of env "(str_of url, params)" w] by simp
  with h assms show ?thesis by simp
qed

lemma gget_loop_bad_body:
  assumes "truthy url" and "net env (tick w) (str_of url, params) = Reply r"
    and "status_code r \<noteq> 429" and "status_code r < 400 \<or> 600 \<le> status_code r"
  shows "body r = NotJson \<Longrightarrow>
           fst (gget_loop env (Suc n) url params items w) = Some (Inl JSONDecodeError)"
    and "body r = JsonOther \<Longrightarrow>
           fst (gget_loop env (Suc n) url params items w) = Some (Inl AttributeError)"
    and "body r = Json flds None \<Longrightarrow>
           fst (gget_loop env (Suc n) url params items w) = Some (Inl TypeError)"
proof -
  obtain rep w1 where h: "http_get env (str_of url, params) w = (rep, w1)"
    by (cases "http_get env (str_of url, params) w")
  then have rep: "rep = Reply r"
    using assms(2) http_get_simps(1) [of env "(str_of url, params)" w] by simp
  show "body r = NotJson \<Longrightarrow>
           fst (gget_loop env (Suc n) url params items w) = Some (Inl JSONDecodeError)"
    using assms h rep by (auto simp add: Let_def)
  show "body r = JsonOther \<Longrightarrow>
           fst (gget_loop env (Suc n) url params items w) = Some (Inl AttributeError)"
    using assms h rep by (auto simp add: Let_def)
  show "body r = Json flds None \<Longrightarrow>
           fst (gget_loop env (Suc n) url params items w) = Some (Inl TypeError)"
    using assms h rep by (auto simp add: Let_def)
qed

lemma gget_loop_bad_interval:
  assumes "truthy url" and "net env (tick w) (str_of url, params) = Reply r"
    and "status_code r = 429"
  shows "retry_interval env r = None \<Longrightarrow>
           fst (gget_loop env (Suc n) url params items w) = Some (Inl ValueError)"
    and "retry_interval env r = Some s \<Longrightarrow> s < 0 \<Longrightarrow>
           fst (gget_loop env (Suc n) url params items w) = Some (Inl ValueError)"
    and "retry_interval env r = Some s \<Longrightarrow> 0 \<le> s \<Longrightarrow> sleep_error env s = Some ex \<Longrightarrow>
           fst (gget_loop env (Suc n) url params items w) = Some (Inl ex)"
proof -
  obtain rep w1 where h: "http_get env (str_of url, params) w = (rep, w1)"
    by (cases "http_get env (str_of url, params) w")
  then have rep: "rep = Reply r"
    using assms(2) http_get_simps(1) [of env "(str_of url, params)" w] by simp
  show "retry_interval env r = None \<Longrightarrow>
           fst (gget_loop env (Suc n) url params items w) = Some (Inl ValueError)"
    using assms h rep by (simp add: retry_interval_def Let_def)
  show "retry_interval env r = Some s \<Longrightarrow> s < 0 \<Longrightarrow>
           fst (gget_loop env (Suc n) url params items w) = Some (Inl ValueError)"
    using assms h rep by (simp add: retry_interval_def Let_def)
  show "retry_interval env r = Some s \<Longrightarrow> 0 \<le> s \<Longrightarrow> sleep_error env s = Some ex \<Longrightarrow>
           fst (gget_loop env (Suc n) url params items w) = Some (Inl ex)"
    using assms h rep by (simp add: retry_interval_def Let_def)
qed

lemma gget_loop_done: "\<not> truthy url \<Longrightarrow> gget_loop env n url params items w = (Some (Inr items), w)"
  by (cases n) simp_all

lemma serves_gget_loop:
  assumes "serves env t url params ps t'"
  shows "t = tick w \<Longrightarrow>
     \<exists>fuel w'. gget_loop env fuel url params items w = (Some (Inr (items @ concat ps)), w')
        \<and> tick w' = t' \<and> role_name_by_id w' = role_name_by_id w"
  using assms
proof (induction arbitrary: w items rule: serves.induct)
  case (serves_end url env t params)
  then show ?case by (auto simp add: gget_loop_done)
next
  case (serves_throttled url env t params r s ps t')
  let ?w1 = "emit (Sleep s) (emit (Print (Throttled s)) (snd (http_get env (str_of url, params) w)))"
  have "Suc t = tick ?w1" using serves_throttled.prems by simp
  from serves_throttled.IH [OF this, of items] obtain fuel w' where
    g: "gget_loop env fuel url None items ?w1 = (Some (Inr (items @ concat ps)), w')"
    and k: "tick w' = t'" and c: "role_name_by_id w' = role_name_by_id ?w1" by blast
  have "gget_loop env (Suc fuel) url params items w = (Some (Inr (items @ concat ps)), w')"
    using gget_loop_throttled [of url env w params r s fuel items] serves_throttled.hyps
      serves_throttled.prems g by simp
  with k c show ?case by (intro exI [of _ "Suc fuel"] exI [of _ w']) simp
next
  case (serves_page url env t params r flds vals ps t')
  let ?w1 = "if 400 \<le> status_code r
             then emit (Print (GraphErrorJson (status_code r) (body r)))
                    (snd (http_get env (str_of url, params) w))
             else snd (http_get env (str_of url, params) w)"
  have "Suc t = tick ?w1" using serves_page.prems by simp
  from serves_page.IH [OF this, of "items @ vals"] obtain fuel w' where
    g: "gget_loop env fuel (dict_get flds ''@odata.nextLink'') None (items @ vals) ?w1
          = (Some (Inr ((items @ vals) @ concat ps)), w')"
    and k: "tick w' = t'" and c: "role_name_by_id w' = role_name_by_id ?w1" by blast
  obtain rep w1 where h: "http_get env (str_of url, params) w = (rep, w1)"
    by (cases "http_get env (str_of url, params) w")
  then have rep: "rep = Reply r"
    using serves_page.hyps(2) serves_page.prems http_get_simps(1) [of env "(str_of url, params)" w]
    by simp
  have "gget_loop env (Suc fuel) url params items w = (Some (Inr (items @ concat (vals # ps))), w')"
    using serves_page.hyps g h rep by (auto simp add: Let_def)
  with k c show ?case by (intro exI [of _ "Suc fuel"] exI [of _ w']) simp
qed

lemma gget_loop_serves:
  "gget_loop env fuel url params items w = (Some (Inr res), w') \<Longrightarrow>
     \<exists>ps. serves env (tick w) url params ps (tick w') \<and> res = items @ concat ps"
proof (induction fuel arbitrary: url params items w)
  case 0
  then show ?case by (auto split: if_splits intro: serves_end)
next
  case (Suc n)
  show ?case
  proof (cases "truthy url")
    case False
    with Suc.prems show ?thesis by (auto intro: serves_end)
  next
    case True
    obtain rep w1 where h: "http_get env (str_of url, params) w = (rep, w1)"
      by (cases "http_get env (str_of url, params) w")
    have rep: "rep = net env (tick w) (str_of url, params)" and t1: "tick w1 = Suc (tick w)"
      using h http_get_simps(1,2) [of env "(str_of url, params)" w] by simp_all
    from Suc.prems True h obtain r where r: "rep = Reply r"
      by (cases rep) auto
    show ?thesis
    proof (cases "status_code r = 429")
      case t: True
      from Suc.prems True h r t obtain s where s: "retry_interval env r = Some s"
        by (cases "retry_interval env r") (auto simp add: retry_interval_def)
      from Suc.prems True h r t s have nn: "0 \<le> s"
        by (auto simp add: retry_interval_def Let_def split: if_splits)
      from Suc.prems True h r t s nn have sl: "sleep_error env s = None"
        by (cases "sleep_error env s") (auto simp add: retry_interval_def Let_def)
      with Suc.prems True h r t s nn have
        "gget_loop env n url None items (emit (Sleep s) (emit (Print (Throttled s)) w1))
           = (Some (Inr res), w')"
        by (auto simp add: retry_interval_def Let_def)
      from Suc.IH [OF this] t1 obtain ps where
        "serves env (Suc (tick w)) url None ps (tick w')" and e: "res = items @ concat ps"
        by auto
      with True r rep t s nn sl have "serves env (tick w) url params ps (tick w')"
        by (intro serves_throttled [of url env "tick w" params r s ps "tick w'"]) simp_all
      with e show ?thesis by blast
    next
      case f: False
      from Suc.prems True h r f have ok: "status_code r < 400 \<or> 600 \<le> status_code r"
        by (auto simp add: Let_def split: if_splits)
      from Suc.prems True h r f ok obtain flds vals where b: "body r = Json flds (Some vals)"
        by (cases "body r") (auto simp add: Let_def split: if_splits option.splits)
      let ?w2 = "if 400 \<le> status_code r
                 then emit (Print (GraphErrorJson (status_code r) (body r))) w1 else w1"
      from Suc.prems True h r f ok b have
        "gget_loop env n (dict_get flds ''@odata.nextLink'') None (items @ vals) ?w2
           = (Some (Inr res), w')"
        by (auto simp add: Let_def split: if_splits)
      from Suc.IH [OF this] t1 obtain ps where
        "serves env (Suc (tick w)) (dict_get flds ''@odata.nextLink'') None ps (tick w')"
        and e: "res = (items @ vals) @ concat ps"
        by (auto split: if_splits)
      with True r rep f ok b have "serves env (tick w) url params (vals # ps) (tick w')"
        by (intro serves_page [of url env "tick w" params r flds vals ps "tick w'"]) simp_all
      with e show ?thesis by (intro exI [of _ "vals # ps"]) simp
    qed
  qed
qed

lemma gget_loop_more_fuel:
  "fst (gget_loop env fuel url params items w) \<noteq> None \<Longrightarrow>
     gget_loop env (fuel + k) url params items w = gget_loop env fuel url params items w"
proof (induction fuel arbitrary: url params items w)
  case 0
  then show ?case by (auto simp add: gget_loop_done split: if_splits)
next
  case (Suc n)
  show ?case
  proof (cases "truthy url")
    case False
    then show ?thesis by (simp add: gget_loop_done)
  next
    case True
    obtain rep w1 where h: "http_get env (str_of url, params) w = (rep, w1)"
      by (cases "http_get env (str_of url, params) w")
    show ?thesis
      using Suc.prems True h
      by (auto simp add: Let_def Suc.IH split: reply.splits option.splits if_splits body.splits)
  qed
qed

lemma gget_loop_throttled_forever:
  assumes "truthy url"
    and "\<And>t. \<exists>r s. net env t (str_of url, None) = Reply r \<and> status_code r = 429
                 \<and> retry_interval env r = Some s \<and> 0 \<le> s \<and> sleep_error env s = None"
  shows "fst (gget_loop env fuel url None items w) = None"
proof (induction fuel arbitrary: w)
  case 0
  with assms(1) show ?case by simp
next
  case (Suc n)
  from assms(2) [of "tick w"] obtain r s where
    "net env (tick w) (str_of url, None) = Reply r" "status_code r = 429"
    "retry_interval env r = Some s" "0 \<le> s" "sleep_error env s = None" by blast
  from gget_loop_throttled [OF assms(1) this, of n items] Suc.IH show ?case by simp
qed

lemmas sample_defs = sample_env_def paged_env_def paged_net_def busy_env_def html_env_def dated_env_def
  always_def throttled_reply_def ok_reply_def err_reply_def GRAPH_def fresh_def dec_int_def
  number_of_def digit_of_def sleep_limit_def http_get_def emit_def gget_all_def retry_interval_def
  dict_get_def sample_net_def Let_def

lemma paged_run:
  "\<exists>w'. gget_loop paged_env (Suc (Suc (Suc (Suc 0)))) (JStr (GRAPH @ ''/things'')) None [] fresh
     = (Some (Inr [sample_assignment, reader_assignment, standing_assignment]), w') \<and> tick w' = 4
     \<and> [ev \<leftarrow> trace w'. case ev of Sleep s \<Rightarrow> True | _ \<Rightarrow> False] = [Sleep 2, Sleep 3]"
  by (simp add: sample_defs)

lemma html_run:
  "fst (gget_all html_env (Suc fuel) ''/roleManagement/directory/roleAssignments'' None fresh)
     = Some (Inl JSONDecodeError)"
  by (simp add: sample_defs)

lemma dated_run:
  "fst (gget_all dated_env (Suc fuel) ''/roleManagement/directory/roleAssignments'' None fresh)
     = Some (Inl ValueError)"
  by (simp add: sample_defs)

lemma missing_run:
  "gget_all sample_env (Suc fuel) ''/nothing'' None fresh
     = (Some (Inl (HTTPError 404)),
        \<lparr>role_name_by_id = [], tick = 1,
         trace = [Http (GRAPH @ ''/nothing'', None) (err_reply 404), Print (GraphErrorText 404 ''error'')]\<rparr>)"
  by (simp add: sample_defs)

text \<open>
  Claim C7, against the claim as stated. Every request to the first directory is
  answered with status 200, below 400, and \<^verbatim>\<open>gget_all\<close> raises, because the body is not
  JSON; the second directory throttles with a date in \<^verbatim>\<open>Retry-After\<close> and \<^verbatim>\<open>gget_all\<close>
  raises \<^verbatim>\<open>ValueError\<close> instead of retrying.
\<close>

theorem gget_all_counterexample:
  "net html_env 0 (GRAPH @ ''/roleManagement/directory/roleAssignments'', None)
     = Reply \<lparr>status_code = 200, retry_after = None, body = NotJson, resp_text = ''<html></html>''\<rparr>
   \<and> fst (gget_all html_env 3 ''/roleManagement/directory/roleAssignments'' None fresh)
     = Some (Inl JSONDecodeError)
   \<and> net dated_env 0 (GRAPH @ ''/roleManagement/directory/roleAssignments'', None)
     = Reply \<lparr>status_code = 429, retry_after = Some ''Wed, 21 Oct 2015 07:28:00 GMT'',
              body = NotJson, resp_text = []\<rparr>
   \<and> fst (gget_all dated_env 3 ''/roleManagement/directory/roleAssignments'' None fresh)
     = Some (Inl ValueError)"
proof -
  have "fst (gget_all html_env (Suc 2) ''/roleManagement/directory/roleAssignments'' None fresh)
     = Some (Inl JSONDecodeError)" by (rule html_run)
  moreover have "fst (gget_all dated_env (Suc 2) ''/roleManagement/directory/roleAssignments'' None fresh)
     = Some (Inl ValueError)" by (rule dated_run)
  moreover have "Suc 2 = 3" by simp
  ultimately show ?thesis
    by (simp add: html_env_def dated_env_def throttled_reply_def)
qed

text \<open>
  Claim C7, amended. The fetch returns exactly when the directory serves a finite chain
  of pages for it: if the directory serves the pages \<open>ps\<close> from the start of the fetch
  on (after finitely many throttling answers whose interval \<^verbatim>\<open>int\<close> reads, that is not
  negative and that \<^verbatim>\<open>time.sleep\<close> takes, each page with a status that is not one from
  400 to 599 and a body that is a JSON object with a list of items), the fetch returns,
  with enough fuel and with any more, the items it started with followed by the items of
  the pages in page order; and whenever the fetch returns, the directory has served
  such pages and the result is their concatenation. Such a throttling answer with
  interval \<open>s\<close> is followed by a sleep of \<open>s\<close> seconds and a request for the same
  URL, the interval being what \<^verbatim>\<open>int\<close> makes of \<^verbatim>\<open>"2"\<close> when the header is absent; under a
  directory that throttles so forever the fetch never returns and never raises. On a
  status from 400 to 599 other than 429 the fetch logs the JSON body, or else the first
  800 characters of the text, and raises. The fetch also raises when the request itself
  raises; when a response that is not refused for its status has a body that is not
  JSON, is not a JSON object, or holds no list under \<^verbatim>\<open>"value"\<close>; and when a throttling
  answer carries an interval that \<^verbatim>\<open>int\<close> does not read, that is negative, or that
  \<^verbatim>\<open>time.sleep\<close> refuses.
\<close>

theorem gget_all_behaviour:
  "gget_all env fuel path params w = gget_loop env fuel (JStr (GRAPH @ path)) params [] w
   \<and> (serves env (tick w) url params ps t' \<longrightarrow>
        (\<exists>n w'. (\<forall>k. gget_loop env (n + k) url params items w
                        = (Some (Inr (items @ concat ps)), w')) \<and> tick w' = t'))
   \<and> (gget_loop env fuel url params items w = (Some (Inr res), w') \<longrightarrow>
        (\<exists>qs. serves env (tick w) url params qs (tick w') \<and> res = items @ concat qs))
   \<and> (truthy url \<and> net env (tick w) (str_of url, params) = Reply r \<and> status_code r = 429
        \<and> retry_interval env r = Some s \<and> 0 \<le> s \<and> sleep_error env s = None \<longrightarrow>
        gget_loop env (Suc fuel) url params items w =
          gget_loop env fuel url None items
            (emit (Sleep s) (emit (Print (Throttled s)) (snd (http_get env (str_of url, params) w)))))
   \<and> (retry_after r = None \<longrightarrow> retry_interval env r = int_of_str env ''2'')
   \<and> (truthy url \<and> (\<forall>t. \<exists>r s. net env t (str_of url, None) = Reply r \<and> status_code r = 429
                           \<and> retry_interval env r = Some s \<and> 0 \<le> s
                           \<and> sleep_error env s = None) \<longrightarrow>
        fst (gget_loop env fuel url None items w) = None)
   \<and> (truthy url \<and> net env (tick w) (str_of url, params) = Reply r \<and> status_code r \<noteq> 429
        \<and> 400 \<le> status_code r \<and> status_code r < 600 \<longrightarrow>
        gget_loop env (Suc fuel) url params items w =
          (Some (Inl (HTTPError (status_code r))),
           emit (Print (case body r of
                          NotJson \<Rightarrow> GraphErrorText (status_code r) (take 800 (resp_text r))
                        | _ \<Rightarrow> GraphErrorJson (status_code r) (body r)))
             (snd (http_get env (str_of url, params) w))))
   \<and> (truthy url \<and> net env (tick w) (str_of url, params) = ConnError \<longrightarrow>
        fst (gget_loop env (Suc fuel) url params items w) = Some (Inl RequestException))
   \<and> (truthy url \<and> net env (tick w) (str_of url, params) = Reply r \<and> status_code r \<noteq> 429
        \<and> (status_code r < 400 \<or> 600 \<le> status_code r) \<longrightarrow>
        (body r = NotJson \<longrightarrow>
           fst (gget_loop env (Suc fuel) url params items w) = Some (Inl JSONDecodeError))
        \<and> (body r = JsonOther \<longrightarrow>
           fst (gget_loop env (Suc fuel) url params items w) = Some (Inl AttributeError))
        \<and> (body r = Json flds None \<longrightarrow>
           fst (gget_loop env (Suc fuel) url params items w) = Some (Inl TypeError)))
   \<and> (truthy url \<and> net env (tick w) (str_of url, params) = Reply r \<and> status_code r = 429 \<longrightarrow>
        (retry_interval env r = None \<longrightarrow>
           fst (gget_loop env (Suc fuel) url params items w) = Some (Inl ValueError))
        \<and> (retry_interval env r = Some s \<and> s < 0 \<longrightarrow>
           fst (gget_loop env (Suc fuel) url params items w) = Some (Inl ValueError))
        \<and> (retry_interval env r = Some s \<and> 0 \<le> s \<and> sleep_error env s = Some ex \<longrightarrow>
           fst (gget_loop env (Suc fuel) url params items w) = Some (Inl ex)))"
proof (intro conjI impI)
  show "gget_all env fuel path params w = gget_loop env fuel (JStr (GRAPH @ path)) params [] w"
    by (simp add: gget_all_def)
next
  assume "serves env (tick w) url params ps t'"
  from serves_gget_loop [OF this refl, of items] obtain n w' where
    g: "gget_loop env n url params items w = (Some (Inr (items @ concat ps)), w')"
    and t: "tick w' = t'" by blast
  have "\<forall>k. gget_loop env (n + k) url params items w = (Some (Inr (items @ concat ps)), w')"
    using gget_loop_more_fuel [of env n url params items w] g by simp
  with t show "\<exists>n w'. (\<forall>k. gget_loop env (n + k) url params items w
                        = (Some (Inr (items @ concat ps)), w')) \<and> tick w' = t'"
    by blast
next
  assume "gget_loop env fuel url params items w = (Some (Inr res), w')"
  then show "\<exists>qs. serves env (tick w) url params qs (tick w') \<and> res = items @ concat qs"
    by (rule gget_loop_serves)
next
  assume "truthy url \<and> net env (tick w) (str_of url, params) = Reply r \<and> status_code r = 429
        \<and> retry_interval env r = Some s \<and> 0 \<le> s \<and> sleep_error env s = None"
  then show "gget_loop env (Suc fuel) url params items w =
          gget_loop env fuel url None items
            (emit (Sleep s) (emit (Print (Throttled s)) (snd (http_get env (str_of url, params) w))))"
    by (intro gget_loop_throttled [of url env w params r s]) simp_all
next
  assume "retry_after r = None"
  then show "retry_interval env r = int_of_str env ''2''" by (simp add: retry_interval_def)
next
  assume a: "truthy url \<and> (\<forall>t. \<exists>r s. net env t (str_of url, None) = Reply r \<and> status_code r = 429
                           \<and> retry_interval env r = Some s \<and> 0 \<le> s
                           \<and> sleep_error env s = None)"
  show "fst (gget_loop env fuel url None items w) = None"
    using a by (intro gget_loop_throttled_forever) auto
next
  assume "truthy url \<and> net env (tick w) (str_of url, params) = Reply r \<and> status_code r \<noteq> 429
        \<and> 400 \<le> status_code r \<and> status_code r < 600"
  then show "gget_loop env (Suc fuel) url params items w =
          (Some (Inl (HTTPError (status_code r))),
           emit (Print (case body r of
                          NotJson \<Rightarrow> GraphErrorText (status_code r) (take 800 (resp_text r))
                        | _ \<Rightarrow> GraphErrorJson (status_code r) (body r)))
             (snd (http_get env (str_of url, params) w)))"
    by (intro gget_loop_error) simp_all
next
  assume "truthy url \<and> net env (tick w) (str_of url, params) = ConnError"
  then have "gget_loop env (Suc fuel) url params items w =
           (Some (Inl RequestException), snd (http_get env (str_of url, params) w))"
    by (intro gget_loop_request_raises) simp_all
  then show "fst (gget_loop env (Suc fuel) url params items w) = Some (Inl RequestException)"
    by simp
next
  assume a: "truthy url \<and> net env (tick w) (str_of url, params) = Reply r \<and> status_code r \<noteq> 429
        \<and> (status_code r < 400 \<or> 600 \<le> status_code r)"
  {
    assume "body r = NotJson"
    with a show "fst (gget_loop env (Suc fuel) url params items w) = Some (Inl JSONDecodeError)"
      by (intro gget_loop_bad_body(1) [of url env w params r]) simp_all
  next
    assume "body r = JsonOther"
    with a show "fst (gget_loop env (Suc fuel) url params items w) = Some (Inl AttributeError)"
      by (intro gget_loop_bad_body(2) [of url env w params r]) simp_all
  next
    assume "body r = Json flds None"
    with a show "fst (gget_loop env (Suc fuel) url params items w) = Some (Inl TypeError)"
      by (intro gget_loop_bad_body(3) [of url env w params r flds]) simp_all
  }
next
  assume a: "truthy url \<and> net env (tick w) (str_of url, params) = Reply r \<and> status_code r = 429"
  {
    assume "retry_interval env r = None"
    with a show "fst (gget_loop env (Suc fuel) url params items w) = Some (Inl ValueError)"
      by (intro gget_loop_bad_interval(1) [of url env w params r]) simp_all
  next
    assume "retry_interval env r = Some s \<and> s < 0"
    with a show "fst (gget_loop env (Suc fuel) url params items w) = Some (Inl ValueError)"
      by (intro gget_loop_bad_interval(2) [of url env w params r s]) simp_all
  next
    assume "retry_interval env r = Some s \<and> 0 \<le> s \<and> sleep_error env s = Some ex"
    with a show "fst (gget_loop env (Suc fuel) url params items w) = Some (Inl ex)"
      by (intro gget_loop_bad_interval(3) [of url env w params r s ex]) simp_all
  }
qed

lemma net_always [simp]: "net (always rep) t req = rep"
  by (simp add: always_def)

lemma int_of_str_sample [simp]:
  "int_of_str (always rep) = dec_int" "sleep_error (always rep) = sleep_limit"
  "int_of_str paged_env = dec_int" "sleep_error paged_env = sleep_limit"
  "int_of_str busy_env = dec_int" "sleep_error busy_env = sleep_limit"
  "int_of_str dated_env = dec_int"
  by (simp_all add: always_def paged_env_def busy_env_def dated_env_def sample_env_def)

lemma dec_int_samples:
  "dec_int ''2'' = Some 2" "dec_int ''1'' = Some 1" "dec_int ''3'' = Some 3"
  "dec_int ''-1'' = Some (- 1)" "dec_int ''10000000000'' = Some 10000000000"
  "dec_int ''Wed, 21 Oct 2015 07:28:00 GMT'' = None"
  by (simp_all add: dec_int_def number_of_def digit_of_def)

theorem gget_all_behaviour_witness:
  "(\<exists>n. \<forall>k. fst (gget_loop paged_env (n + k) (JStr (GRAPH @ ''/things'')) None [] fresh)
              = Some (Inr [sample_assignment, reader_assignment, standing_assignment]))
   \<and> (\<exists>qs. serves paged_env 0 (JStr (GRAPH @ ''/things'')) None qs 4
         \<and> [sample_assignment, reader_assignment, standing_assignment] = concat qs)
   \<and> retry_interval paged_env
        \<lparr>status_code = 429, retry_after = None, body = NotJson, resp_text = []\<rparr> = Some 2
   \<and> fst (gget_loop paged_env 3 (JStr (GRAPH @ ''/things'')) None [] fresh)
       = fst (gget_loop paged_env 2 (JStr (GRAPH @ ''/things'')) None []
               (emit (Sleep 2) (emit (Print (Throttled 2))
                  (snd (http_get paged_env (GRAPH @ ''/things'', None) fresh)))))
   \<and> fst (gget_loop busy_env 9 (JStr (GRAPH @ ''/things'')) None [] fresh) = None
   \<and> fst (gget_loop sample_env 1 (JStr (GRAPH @ ''/nothing'')) None [] fresh)
       = Some (Inl (HTTPError 404))
   \<and> fst (gget_loop (always ConnError) 1 (JStr (GRAPH @ ''/things'')) None [] fresh)
       = Some (Inl RequestException)
   \<and> fst (gget_loop
        (always (Reply \<lparr>status_code = 200, retry_after = None, body = NotJson, resp_text = []\<rparr>))
        1 (JStr (GRAPH @ ''/things'')) None [] fresh) = Some (Inl JSONDecodeError)
   \<and> fst (gget_loop
        (always (Reply \<lparr>status_code = 200, retry_after = None, body = JsonOther, resp_text = []\<rparr>))
        1 (JStr (GRAPH @ ''/things'')) None [] fresh) = Some (Inl AttributeError)
   \<and> fst (gget_loop
        (always (Reply \<lparr>status_code = 200, retry_after = None, body = Json Map.empty None,
                        resp_text = []\<rparr>))
        1 (JStr (GRAPH @ ''/things'')) None [] fresh) = Some (Inl TypeError)
   \<and> fst (gget_loop (always (throttled_reply (Some ''Wed, 21 Oct 2015 07:28:00 GMT'')))
        1 (JStr (GRAPH @ ''/things'')) None [] fresh) = Some (Inl ValueError)
   \<and> fst (gget_loop (always (throttled_reply (Some ''-1'')))
        1 (JStr (GRAPH @ ''/things'')) None [] fresh) = Some (Inl ValueError)
   \<and> fst (gget_loop (always (throttled_reply (Some ''10000000000'')))
        1 (JStr (GRAPH @ ''/things'')) None [] fresh) = Some (Inl OverflowError)"
proof -
  let ?url = "JStr (GRAPH @ ''/things'')"
  let ?L = "[sample_assignment, reader_assignment, standing_assignment]"
  let ?r = "\<lparr>status_code = 429, retry_after = None, body = NotJson, resp_text = []\<rparr>"
  have tf: "tick fresh = 0" by (simp add: fresh_def)
  have tr: "truthy ?url" by (simp add: GRAPH_def)
  from paged_run obtain w' where
    g: "gget_loop paged_env (Suc (Suc (Suc (Suc 0)))) ?url None [] fresh = (Some (Inr ?L), w')"
    and t: "tick w' = 4" by blast
  from gget_all_behaviour [where env = paged_env and fuel = "Suc (Suc (Suc (Suc 0)))" and url = ?url
      and params = None and items = "[]" and w = fresh and res = ?L and w' = w',
      THEN conjunct2, THEN conjunct2, THEN conjunct1, THEN mp, OF g] obtain qs where q: "serves paged_env (tick fresh) ?url None qs (tick w')"
    and c: "?L = [] @ concat qs" by blast
  from gget_all_behaviour [where env = paged_env and url = ?url
      and params = None and items = "[]" and w = fresh and ps = qs and t' = "tick w'",
      THEN conjunct2, THEN conjunct1, THEN mp, OF q] obtain n w'' where
    "\<forall>k. gget_loop paged_env (n + k) ?url None [] fresh = (Some (Inr ([] @ concat qs)), w'')"
    by blast
  with c have 1: "\<exists>n. \<forall>k. fst (gget_loop paged_env (n + k) ?url None [] fresh) = Some (Inr ?L)"
    by (intro exI [of _ n]) simp
  from q c t tf have 2: "\<exists>qs. serves paged_env 0 ?url None qs 4 \<and> ?L = concat qs"
    by auto
  have n0: "net paged_env (tick fresh) (str_of ?url, None) = Reply ?r"
    by (simp add: paged_env_def paged_net_def throttled_reply_def fresh_def)
  have s2: "sleep_error paged_env 2 = None" by (simp add: sleep_limit_def)
  have "retry_after ?r = None" by simp
  from gget_all_behaviour [where env = paged_env and r = ?r,
      THEN conjunct2, THEN conjunct2, THEN conjunct2, THEN conjunct2, THEN conjunct1, THEN mp, OF this] have 3: "retry_interval paged_env ?r = Some 2"
    by (simp add: dec_int_samples)
  have "truthy ?url \<and> net paged_env (tick fresh) (str_of ?url, None) = Reply ?r
        \<and> status_code ?r = 429 \<and> retry_interval paged_env ?r = Some 2 \<and> (0::int) \<le> 2
        \<and> sleep_error paged_env 2 = None"
    using tr n0 3 s2 by simp
  from gget_all_behaviour [where env = paged_env and fuel = 2 and url = ?url
      and params = None and items = "[]" and w = fresh and r = ?r and s = 2,
      THEN conjunct2, THEN conjunct2, THEN conjunct2, THEN conjunct1, THEN mp, OF this] have
    "gget_loop paged_env (Suc 2) ?url None [] fresh =
       gget_loop paged_env 2 ?url None []
         (emit (Sleep 2) (emit (Print (Throttled 2)) (snd (http_get paged_env (str_of ?url, None) fresh))))"
    .
  moreover have "Suc 2 = 3" by simp
  ultimately have 4: "fst (gget_loop paged_env 3 ?url None [] fresh)
       = fst (gget_loop paged_env 2 ?url None []
               (emit (Sleep 2) (emit (Print (Throttled 2))
                  (snd (http_get paged_env (GRAPH @ ''/things'', None) fresh)))))"
    by simp
  have "truthy ?url \<and> (\<forall>t. \<exists>r s. net busy_env t (str_of ?url, None) = Reply r \<and> status_code r = 429
                           \<and> retry_interval busy_env r = Some s \<and> 0 \<le> s
                           \<and> sleep_error busy_env s = None)"
    using tr
    by (simp add: busy_env_def throttled_reply_def retry_interval_def sample_env_def
        dec_int_samples sleep_limit_def)
  from gget_all_behaviour [where env = busy_env and fuel = 9 and url = ?url and items = "[]" and w = fresh,
      THEN conjunct2, THEN conjunct2, THEN conjunct2, THEN conjunct2, THEN conjunct2, THEN conjunct1, THEN mp, OF this]
  have 5: "fst (gget_loop busy_env 9 ?url None [] fresh) = None" .
  let ?e = "\<lparr>status_code = 404, retry_after = None, body = NotJson, resp_text = ''error''\<rparr>"
  let ?nurl = "JStr (GRAPH @ ''/nothing'')"
  have "truthy ?nurl \<and> net sample_env (tick fresh) (str_of ?nurl, None) = Reply ?e
        \<and> status_code ?e \<noteq> 429 \<and> 400 \<le> status_code ?e \<and> status_code ?e < 600"
    by (simp add: sample_env_def sample_net_def err_reply_def fresh_def GRAPH_def)
  from gget_all_behaviour [where env = sample_env and fuel = 0 and url = ?nurl and params = None and items = "[]" and w = fresh and r = ?e,
      THEN conjunct2, THEN conjunct2, THEN conjunct2, THEN conjunct2, THEN conjunct2,
      THEN conjunct2, THEN conjunct1, THEN mp, OF this]
  have 6: "fst (gget_loop sample_env 1 ?nurl None [] fresh) = Some (Inl (HTTPError 404))"
    by simp
  have "truthy ?url \<and> net (always ConnError) (tick fresh) (str_of ?url, None) = ConnError"
    using tr by simp
  from gget_all_behaviour [where env = "always ConnError" and fuel = 0 and url = ?url and params = None and items = "[]" and w = fresh,
      THEN conjunct2, THEN conjunct2, THEN conjunct2, THEN conjunct2, THEN conjunct2,
      THEN conjunct2, THEN conjunct2, THEN conjunct1, THEN mp, OF this]
  have 7: "fst (gget_loop (always ConnError) 1 ?url None [] fresh) = Some (Inl RequestException)"
    by simp
  let ?h = "\<lparr>status_code = 200, retry_after = None, body = NotJson, resp_text = []\<rparr>"
  have "truthy ?url \<and> net (always (Reply ?h)) (tick fresh) (str_of ?url, None) = Reply ?h
        \<and> status_code ?h \<noteq> 429 \<and> (status_code ?h < 400 \<or> 600 \<le> status_code ?h)"
    using tr by simp
  from gget_all_behaviour [where env = "always (Reply ?h)" and fuel = 0 and url = ?url
      and params = None and items = "[]" and w = fresh and r = ?h,
      THEN conjunct2, THEN conjunct2, THEN conjunct2, THEN conjunct2, THEN conjunct2,
      THEN conjunct2, THEN conjunct2, THEN conjunct2, THEN conjunct1, THEN mp, OF this]
  have 8: "fst (gget_loop (always (Reply ?h)) 1 ?url None [] fresh) = Some (Inl JSONDecodeError)"
    by simp
  let ?a = "\<lparr>status_code = 200, retry_after = None, body = JsonOther, resp_text = []\<rparr>"
  have "truthy ?url \<and> net (always (Reply ?a)) (tick fresh) (str_of ?url, None) = Reply ?a
        \<and> status_code ?a \<noteq> 429 \<and> (status_code ?a < 400 \<or> 600 \<le> status_code ?a)"
    using tr by simp
  from gget_all_behaviour [where env = "always (Reply ?a)" and fuel = 0 and url = ?url
      and params = None and items = "[]" and w = fresh and r = ?a,
      THEN conjunct2, THEN conjunct2, THEN conjunct2, THEN conjunct2, THEN conjunct2,
      THEN conjunct2, THEN conjunct2, THEN conjunct2, THEN conjunct1, THEN mp, OF this]
  have 9: "fst (gget_loop (always (Reply ?a)) 1 ?url None [] fresh) = Some (Inl AttributeError)"
    by simp
  let ?n = "\<lparr>status_code = 200, retry_after = None, body = Json Map.empty None, resp_text = []\<rparr>"
  have "truthy ?url \<and> net (always (Reply ?n)) (tick fresh) (str_of ?url, None) = Reply ?n
        \<and> status_code ?n \<noteq> 429 \<and> (status_code ?n < 400 \<or> 600 \<le> status_code ?n)"
    using tr by simp
  from gget_all_behaviour [where env = "always (Reply ?n)" and fuel = 0 and url = ?url
      and params = None and items = "[]" and w = fresh and r = ?n and flds = Map.empty,
      THEN conjunct2, THEN conjunct2, THEN conjunct2, THEN conjunct2, THEN conjunct2,
      THEN conjunct2, THEN conjunct2, THEN conjunct2, THEN conjunct1, THEN mp, OF this]
  have 10: "fst (gget_loop (always (Reply ?n)) 1 ?url None [] fresh) = Some (Inl TypeError)"
    by simp
  let ?d = "\<lparr>status_code = 429, retry_after = Some ''Wed, 21 Oct 2015 07:28:00 GMT'',
             body = NotJson, resp_text = []\<rparr>"
  have rd: "retry_interval (always (Reply ?d)) ?d = None"
    by (simp add: retry_interval_def dec_int_samples)
  have "truthy ?url \<and> net (always (Reply ?d)) (tick fresh) (str_of ?url, None) = Reply ?d
        \<and> status_code ?d = 429"
    using tr by simp
  from gget_all_behaviour [where env = "always (Reply ?d)" and fuel = 0 and url = ?url
      and params = None and items = "[]" and w = fresh and r = ?d and s = "- 1" and ex = OverflowError,
      THEN conjunct2, THEN conjunct2, THEN conjunct2, THEN conjunct2, THEN conjunct2,
      THEN conjunct2, THEN conjunct2, THEN conjunct2, THEN conjunct2, THEN mp, OF this] rd
  have 11: "fst (gget_loop (always (throttled_reply (Some ''Wed, 21 Oct 2015 07:28:00 GMT'')))
        1 ?url None [] fresh) = Some (Inl ValueError)"
    by (simp add: throttled_reply_def)
  let ?m = "\<lparr>status_code = 429, retry_after = Some ''-1'', body = NotJson, resp_text = []\<rparr>"
  have rm: "retry_interval (always (Reply ?m)) ?m = Some (- 1)"
    by (simp add: retry_interval_def dec_int_samples)
  have "truthy ?url \<and> net (always (Reply ?m)) (tick fresh) (str_of ?url, None) = Reply ?m
        \<and> status_code ?m = 429"
    using tr by simp
  from gget_all_behaviour [where env = "always (Reply ?m)" and fuel = 0 and url = ?url
      and params = None and items = "[]" and w = fresh and r = ?m and s = "- 1" and ex = OverflowError,
      THEN conjunct2, THEN conjunct2, THEN conjunct2, THEN conjunct2, THEN conjunct2,
      THEN conjunct2, THEN conjunct2, THEN conjunct2, THEN conjunct2, THEN mp, OF this] rm
  have 12: "fst (gget_loop (always (throttled_reply (Some ''-1'')))
        1 ?url None [] fresh) = Some (Inl ValueError)"
    by (simp add: throttled_reply_def)
  let ?b = "\<lparr>status_code = 429, retry_after = Some ''10000000000'', body = NotJson, resp_text = []\<rparr>"
  have rb: "retry_interval (always (Reply ?b)) ?b = Some 10000000000"
    by (simp add: retry_interval_def dec_int_samples)
  have sb: "sleep_error (always (Reply ?b)) 10000000000 = Some OverflowError"
    by (simp add: sleep_limit_def)
  have "truthy ?url \<and> net (always (Reply ?b)) (tick fresh) (str_of ?url, None) = Reply ?b
        \<and> status_code ?b = 429"
    using tr by simp
  from gget_all_behaviour [where env = "always (Reply ?b)" and fuel = 0 and url = ?url
      and params = None and items = "[]" and w = fresh and r = ?b and s = 10000000000 and ex = OverflowError,
      THEN conjunct2, THEN conjunct2, THEN conjunct2, THEN conjunct2, THEN conjunct2,
      THEN conjunct2, THEN conjunct2, THEN conjunct2, THEN conjunct2, THEN mp, OF this] rb sb
  have 13: "fst (gget_loop (always (throttled_reply (Some ''10000000000'')))
        1 ?url None [] fresh) = Some (Inl OverflowError)"
    by (simp add: throttled_reply_def)
  show ?thesis
    using 1 2 3 4 5 6 7 8 9 10 11 12 13 by (intro conjI)
qed

subsection \<open>The role-name resolver and its cache\<close>

lemma role_name_falsy: "\<not> truthy rid \<Longrightarrow> role_name env rid w = (JStr [], w)"
  by (simp add: role_name_def)

lemma role_name_hit:
  "truthy rid \<Longrightarrow> map_of (role_name_by_id w) rid = Some v \<Longrightarrow> role_name env rid w = (v, w)"
  by (simp add: role_name_def)

lemma role_name_failed:
  assumes "truthy rid" and "map_of (role_name_by_id w) rid = None"
    and "lookup_failed (net env (tick w) (per_id_request rid))"
  shows "role_name env rid w = (rid, snd (http_get env (per_id_request rid) w))"
  using assms
  by (auto simp add: role_name_def per_id_request_def lookup_failed_def http_get_def Let_def
      split: reply.splits body.splits)

lemma role_name_fetched:
  assumes "truthy rid" and "map_of (role_name_by_id w) rid = None"
    and "net env (tick w) (per_id_request rid) = Reply r"
    and "status_code r < 400" and "body r = Json flds vals"
  shows "role_name env rid w =
           (dict_get_default flds ''displayName'' rid,
            (snd (http_get env (per_id_request rid) w))
              \<lparr>role_name_by_id :=
                 AList.update rid (dict_get_default flds ''displayName'' rid) (role_name_by_id w)\<rparr>)"
  using assms
  by (simp add: role_name_def per_id_request_def http_get_def Let_def)

lemma role_name_keeps:
  assumes "map_of (role_name_by_id w) k = Some v"
  shows "map_of (role_name_by_id (snd (role_name env rid w))) k = Some v"
  using assms
  by (auto simp add: role_name_def http_get_def Let_def update_conv'
      split: option.splits reply.splits body.splits)

lemma gget_loop_cache:
  "role_name_by_id (snd (gget_loop env fuel url params items w)) = role_name_by_id w"
proof (induction fuel arbitrary: url params items w)
  case 0
  show ?case by simp
next
  case (Suc n)
  show ?case
  proof (cases "truthy url")
    case False
    then show ?thesis by simp
  next
    case True
    obtain rep w1 where h: "http_get env (str_of url, params) w = (rep, w1)"
      by (cases "http_get env (str_of url, params) w")
    then have c: "role_name_by_id w1 = role_name_by_id w"
      using http_get_simps(3) [of env "(str_of url, params)" w] by simp
    show ?thesis
      using True h c
      by (auto simp add: Let_def Suc.IH split: reply.splits option.splits body.splits)
  qed
qed

lemma load_all_cache:
  "role_name_by_id (snd (load_all_role_definitions env fuel w)) = role_name_by_id w
   \<or> (\<exists>defs w1. gget_all env fuel ''/roleManagement/directory/roleDefinitions'' None w
         = (Some (Inr defs), w1)
       \<and> (\<forall>d \<in> set defs. d ''id'' \<noteq> None)
       \<and> role_name_by_id (snd (load_all_role_definitions env fuel w))
           = fold (\<lambda>d. AList.update (dict_get d ''id'')
                          (dict_get_default d ''displayName'' (JStr []))) defs (role_name_by_id w))"
proof -
  obtain res w1 where g: "gget_all env fuel ''/roleManagement/directory/roleDefinitions'' None w
      = (res, w1)"
    by (cases "gget_all env fuel ''/roleManagement/directory/roleDefinitions'' None w")
  have c: "role_name_by_id w1 = role_name_by_id w"
    using gget_loop_cache [of env fuel "JStr (GRAPH @ ''/roleManagement/directory/roleDefinitions'')"
        None "[]" w] g
    by (simp add: gget_all_def)
  show ?thesis
    using g c
    by (auto simp add: load_all_role_definitions_def Let_def split: option.splits sum.splits)
qed

lemma down_resolution:
  "fst (role_name down_env (JStr ''r-ga'') fresh) = JStr ''r-ga''"
  "fst (role_name sample_env (JStr ''r-ga'') fresh) = JStr ''Global Administrator''"
  "dict_get standing_assignment ''roleDefinitionId'' = JStr ''r-ga''"
  "map pr_assignmentId (out_permanent (fst (classify sample_env [standing_assignment] [] [] fresh)))
     = [JStr ''a3'']"
  "map pr_assignmentId (out_permanent (fst (classify down_env [standing_assignment] [] [] fresh))) = []"
  by code_simp+

text \<open>
  Claim C8, against the claim as stated. The assignment is listed as permanent when the
  directory resolves its role-definition id to Global Administrator; when the lookup
  fails, the role name resolves to the raw id and the assignment is not listed.
\<close>

theorem role_name_counterexample:
  "fst (role_name sample_env (dict_get standing_assignment ''roleDefinitionId'') fresh)
     = JStr ''Global Administrator''
   \<and> map pr_assignmentId (out_permanent (fst (classify sample_env [standing_assignment] [] [] fresh)))
     = [JStr ''a3'']
   \<and> fst (role_name down_env (dict_get standing_assignment ''roleDefinitionId'') fresh)
     = dict_get standing_assignment ''roleDefinitionId''
   \<and> out_permanent (fst (classify down_env [standing_assignment] [] [] fresh)) = []"
  using down_resolution by simp

lemma step_raw_id:
  assumes "fst (role_name env (dict_get a ''roleDefinitionId'') w) = dict_get a ''roleDefinitionId''"
  shows "(fst (permanent_step env ks a w) \<noteq> None)
           = (in_PRIV_ROLES (dict_get a ''roleDefinitionId'') \<and> key_of a \<notin> ks)"
    and "(fst (stale_step env ks a w) \<noteq> None)
           = (in_PRIV_ROLES (dict_get a ''roleDefinitionId'') \<and> key_of a \<notin> ks)"
    and "\<not> in_PRIV_ROLES (dict_get a ''roleDefinitionId'') \<Longrightarrow> fst (long_step env a w) = None"
  using assms permanent_step_Some_iff [of env ks a w] stale_step_Some_iff [of env ks a w]
    long_step_not_priv [of env a w]
  by simp_all

text \<open>
  Claim C8, amended. \<^verbatim>\<open>role_name\<close> always returns a value: for an empty or missing id
  the empty string, with no request; for a cached id the cached name, with no request;
  on a cache miss whose request raises, is answered with a status of 400 or more or has
  no JSON object as body, the raw id. A record whose role name resolves to the raw id is appended
  by the permanent and by the stale loop body if and only if the raw id is itself in
  \<open>PRIV_ROLES\<close> and its key has no in-window instance, and by the long-activation
  loop body only if the raw id is itself in \<open>PRIV_ROLES\<close>.
\<close>

theorem role_name_fallback:
  "(\<not> truthy rid \<longrightarrow> role_name env rid w = (JStr [], w))
   \<and> (truthy rid \<and> map_of (role_name_by_id w) rid = Some v \<longrightarrow> role_name env rid w = (v, w))
   \<and> (truthy rid \<and> map_of (role_name_by_id w) rid = None
        \<and> lookup_failed (net env (tick w) (per_id_request rid)) \<longrightarrow>
        fst (role_name env rid w) = rid)
   \<and> (fst (role_name env (dict_get a ''roleDefinitionId'') w) = dict_get a ''roleDefinitionId'' \<longrightarrow>
        (fst (permanent_step env ks a w) \<noteq> None)
          = (in_PRIV_ROLES (dict_get a ''roleDefinitionId'') \<and> key_of a \<notin> ks)
        \<and> (fst (stale_step env ks a w) \<noteq> None)
          = (in_PRIV_ROLES (dict_get a ''roleDefinitionId'') \<and> key_of a \<notin> ks)
        \<and> (\<not> in_PRIV_ROLES (dict_get a ''roleDefinitionId'') \<longrightarrow> fst (long_step env a w) = None))"
proof (intro conjI impI)
  assume "\<not> truthy rid"
  then show "role_name env rid w = (JStr [], w)" by (rule role_name_falsy)
next
  assume "truthy rid \<and> map_of (role_name_by_id w) rid = Some v"
  then show "role_name env rid w = (v, w)" by (intro role_name_hit) simp_all
next
  assume "truthy rid \<and> map_of (role_name_by_id w) rid = None
        \<and> lookup_failed (net env (tick w) (per_id_request rid))"
  then have "role_name env rid w = (rid, snd (http_get env (per_id_request rid) w))"
    by (intro role_name_failed) simp_all
  then show "fst (role_name env rid w) = rid" by simp
next
  assume r: "fst (role_name env (dict_get a ''roleDefinitionId'') w) = dict_get a ''roleDefinitionId''"
  show "(fst (permanent_step env ks a w) \<noteq> None)
          = (in_PRIV_ROLES (dict_get a ''roleDefinitionId'') \<and> key_of a \<notin> ks)"
    by (rule step_raw_id(1) [OF r])
  show "(fst (stale_step env ks a w) \<noteq> None)
          = (in_PRIV_ROLES (dict_get a ''roleDefinitionId'') \<and> key_of a \<notin> ks)"
    by (rule step_raw_id(2) [OF r])
  assume "\<not> in_PRIV_ROLES (dict_get a ''roleDefinitionId'')"
  then show "fst (long_step env a w) = None" by (rule step_raw_id(3) [OF r])
qed

lemma named_resolution:
  "fst (role_name down_env (dict_get named_assignment ''roleDefinitionId'') fresh)
     = dict_get named_assignment ''roleDefinitionId''"
  "in_PRIV_ROLES (dict_get named_assignment ''roleDefinitionId'')"
  "\<not> in_PRIV_ROLES (dict_get standing_assignment ''roleDefinitionId'')"
  "lookup_failed (net down_env (tick fresh) (per_id_request (JStr ''r-ga'')))"
  by code_simp+

theorem role_name_fallback_witness:
  "role_name down_env JNull fresh = (JStr [], fresh)
   \<and> role_name down_env (JStr ''r-ga'')
        (fresh\<lparr>role_name_by_id := [(JStr ''r-ga'', JStr ''Global Administrator'')]\<rparr>)
       = (JStr ''Global Administrator'',
          fresh\<lparr>role_name_by_id := [(JStr ''r-ga'', JStr ''Global Administrator'')]\<rparr>)
   \<and> lookup_failed (net down_env (tick fresh) (per_id_request (JStr ''r-ga'')))
   \<and> fst (role_name down_env (JStr ''r-ga'') fresh) = JStr ''r-ga''
   \<and> fst (permanent_step down_env {} named_assignment fresh) \<noteq> None
   \<and> fst (stale_step down_env {} named_assignment fresh) \<noteq> None
   \<and> fst (permanent_step down_env {} standing_assignment fresh) = None
   \<and> fst (stale_step down_env {} standing_assignment fresh) = None
   \<and> fst (long_step down_env standing_assignment fresh) = None"
proof -
  let ?hot = "fresh\<lparr>role_name_by_id := [(JStr ''r-ga'', JStr ''Global Administrator'')]\<rparr>"
  note t0 = role_name_fallback [where rid = JNull and env = down_env and w = fresh]
  note t1 = role_name_fallback [where rid = "JStr ''r-ga''" and env = down_env and w = ?hot
      and v = "JStr ''Global Administrator''"]
  note t2 = role_name_fallback [where rid = "JStr ''r-ga''" and env = down_env and w = fresh
      and a = named_assignment and ks = "{}"]
  note t3 = role_name_fallback [where rid = "JStr ''r-ga''" and env = down_env and w = fresh
      and a = standing_assignment and ks = "{}"]
  have 0: "role_name down_env JNull fresh = (JStr [], fresh)" using t0 by simp
  have 1: "role_name down_env (JStr ''r-ga'') ?hot = (JStr ''Global Administrator'', ?hot)"
    using t1 by simp
  have m: "map_of (role_name_by_id fresh) (JStr ''r-ga'') = None" by (simp add: fresh_def)
  have 2: "fst (role_name down_env (JStr ''r-ga'') fresh) = JStr ''r-ga''"
    using t2 m named_resolution(4) by simp
  have 3: "fst (permanent_step down_env {} named_assignment fresh) \<noteq> None"
    "fst (stale_step down_env {} named_assignment fresh) \<noteq> None"
    using t2 named_resolution(1,2) by simp_all
  have s: "fst (role_name down_env (dict_get standing_assignment ''roleDefinitionId'') fresh)
     = dict_get standing_assignment ''roleDefinitionId''"
    using down_resolution(1,3) by simp
  have 4: "fst (permanent_step down_env {} standing_assignment fresh) = None"
    "fst (stale_step down_env {} standing_assignment fresh) = None"
    "fst (long_step down_env standing_assignment fresh) = None"
    using t3 s named_resolution(3) by simp_all
  from 0 1 2 3 4 named_resolution(4) show ?thesis by simp
qed

lemma flaky_calls:
  "fst (role_name flaky_env (JStr ''r-ga'') fresh) = JStr ''r-ga''"
  "role_name_by_id (snd (role_name flaky_env (JStr ''r-ga'') fresh)) = []"
  "tick (snd (role_name flaky_env (JStr ''r-ga'') fresh)) = 1"
  "fst (role_name flaky_env (JStr ''r-ga'') (snd (role_name flaky_env (JStr ''r-ga'') fresh)))
     = JStr ''Global Administrator''"
  "role_name_by_id (snd (role_name flaky_env (JStr ''r-ga'')
      (snd (role_name flaky_env (JStr ''r-ga'') fresh))))
     = [(JStr ''r-ga'', JStr ''Global Administrator'')]"
  "lookup_failed (net flaky_env (tick fresh) (per_id_request (JStr ''r-ga'')))"
  "role_name_by_id (snd (load_all_role_definitions sample_env 2 fresh))
     = [(JStr ''r-ga'', JStr ''Global Administrator''), (JStr ''r-rd'', JStr ''Directory Readers'')]"
  "role_name_by_id (snd (load_all_role_definitions down_env 2 fresh)) = []"
  by code_simp+

text \<open>
  Claim C10. On a cache miss \<^verbatim>\<open>role_name\<close> writes the cache only when the response has a
  status below 400 and a JSON object as body, and then it stores the name it returns; when the
  lookup fails it returns the raw id and leaves the cache as it was, so the next call
  for the same id sends the request again and returns the name if the directory then
  answers. An id that is in the cache resolves to the cached value with no request and
  no change of the state, and a call never changes the entry of an id already cached.
  \<^verbatim>\<open>load_all_role_definitions\<close> leaves the cache as it was unless the fetch of all
  definitions returned and every definition has an id; then the cache is the old one
  updated with each definition's id and display name.
\<close>

theorem cache_written_on_success_only:
  "(truthy rid \<and> map_of (role_name_by_id w) rid = None
      \<and> lookup_failed (net env (tick w) (per_id_request rid)) \<longrightarrow>
        role_name env rid w = (rid, snd (http_get env (per_id_request rid) w))
        \<and> role_name_by_id (snd (role_name env rid w)) = role_name_by_id w
        \<and> tick (snd (role_name env rid w)) = Suc (tick w))
   \<and> (truthy rid \<and> map_of (role_name_by_id w) rid = None
      \<and> net env (tick w) (per_id_request rid) = Reply r
      \<and> status_code r < 400 \<and> body r = Json flds vals \<longrightarrow>
        fst (role_name env rid w) = dict_get_default flds ''displayName'' rid
        \<and> role_name_by_id (snd (role_name env rid w))
            = AList.update rid (dict_get_default flds ''displayName'' rid) (role_name_by_id w))
   \<and> (truthy rid \<and> map_of (role_name_by_id w) rid = None
      \<and> lookup_failed (net env (tick w) (per_id_request rid))
      \<and> net env (Suc (tick w)) (per_id_request rid) = Reply r
      \<and> status_code r < 400 \<and> body r = Json flds vals \<longrightarrow>
        fst (role_name env rid (snd (role_name env rid w)))
          = dict_get_default flds ''displayName'' rid)
   \<and> (truthy rid \<and> map_of (role_name_by_id w) rid = Some v \<longrightarrow> role_name env rid w = (v, w))
   \<and> (map_of (role_name_by_id w) k = Some v \<longrightarrow>
        map_of (role_name_by_id (snd (role_name env rid w))) k = Some v)
   \<and> (role_name_by_id (snd (load_all_role_definitions env fuel w)) = role_name_by_id w
       \<or> (\<exists>defs w1. gget_all env fuel ''/roleManagement/directory/roleDefinitions'' None w
             = (Some (Inr defs), w1)
           \<and> (\<forall>d \<in> set defs. d ''id'' \<noteq> None)
           \<and> role_name_by_id (snd (load_all_role_definitions env fuel w))
               = fold (\<lambda>d. AList.update (dict_get d ''id'')
                              (dict_get_default d ''displayName'' (JStr []))) defs
                   (role_name_by_id w)))"
proof (intro conjI impI)
  assume a: "truthy rid \<and> map_of (role_name_by_id w) rid = None
      \<and> lookup_failed (net env (tick w) (per_id_request rid))"
  then show f: "role_name env rid w = (rid, snd (http_get env (per_id_request rid) w))"
    by (intro role_name_failed) simp_all
  show "role_name_by_id (snd (role_name env rid w)) = role_name_by_id w" by (simp add: f)
  show "tick (snd (role_name env rid w)) = Suc (tick w)" by (simp add: f)
next
  assume a: "truthy rid \<and> map_of (role_name_by_id w) rid = None
      \<and> net env (tick w) (per_id_request rid) = Reply r
      \<and> status_code r < 400 \<and> body r = Json flds vals"
  then have f: "role_name env rid w =
           (dict_get_default flds ''displayName'' rid,
            (snd (http_get env (per_id_request rid) w))
              \<lparr>role_name_by_id :=
                 AList.update rid (dict_get_default flds ''displayName'' rid) (role_name_by_id w)\<rparr>)"
    using role_name_fetched [where rid = rid and w = w and env = env and r = r and flds = flds
        and vals = vals]
    by simp
  show "fst (role_name env rid w) = dict_get_default flds ''displayName'' rid" by (simp add: f)
  show "role_name_by_id (snd (role_name env rid w))
            = AList.update rid (dict_get_default flds ''displayName'' rid) (role_name_by_id w)"
    by (simp add: f)
next
  assume a: "truthy rid \<and> map_of (role_name_by_id w) rid = None
      \<and> lookup_failed (net env (tick w) (per_id_request rid))
      \<and> net env (Suc (tick w)) (per_id_request rid) = Reply r
      \<and> status_code r < 400 \<and> body r = Json flds vals"
  let ?w1 = "snd (http_get env (per_id_request rid) w)"
  from a have f: "role_name env rid w = (rid, ?w1)" by (intro role_name_failed) simp_all
  have "role_name env rid ?w1 =
           (dict_get_default flds ''displayName'' rid,
            (snd (http_get env (per_id_request rid) ?w1))
              \<lparr>role_name_by_id :=
                 AList.update rid (dict_get_default flds ''displayName'' rid) (role_name_by_id ?w1)\<rparr>)"
    using a role_name_fetched [where rid = rid and w = ?w1 and env = env and r = r and flds = flds
        and vals = vals]
    by simp
  then show "fst (role_name env rid (snd (role_name env rid w)))
          = dict_get_default flds ''displayName'' rid"
    by (simp add: f)
next
  assume "truthy rid \<and> map_of (role_name_by_id w) rid = Some v"
  then show "role_name env rid w = (v, w)" by (intro role_name_hit) simp_all
next
  assume "map_of (role_name_by_id w) k = Some v"
  then show "map_of (role_name_by_id (snd (role_name env rid w))) k = Some v"
    by (rule role_name_keeps)
next
  show "role_name_by_id (snd (load_all_role_definitions env fuel w)) = role_name_by_id w
       \<or> (\<exists>defs w1. gget_all env fuel ''/roleManagement/directory/roleDefinitions'' None w
             = (Some (Inr defs), w1)
           \<and> (\<forall>d \<in> set defs. d ''id'' \<noteq> None)
           \<and> role_name_by_id (snd (load_all_role_definitions env fuel w))
               = fold (\<lambda>d. AList.update (dict_get d ''id'')
                              (dict_get_default d ''displayName'' (JStr []))) defs
                   (role_name_by_id w))"
    by (rule load_all_cache)
qed

theorem cache_written_on_success_only_witness:
  "lookup_failed (net flaky_env (tick fresh) (per_id_request (JStr ''r-ga'')))
   \<and> fst (role_name flaky_env (JStr ''r-ga'') fresh) = JStr ''r-ga''
   \<and> role_name_by_id (snd (role_name flaky_env (JStr ''r-ga'') fresh)) = role_name_by_id fresh
   \<and> tick (snd (role_name flaky_env (JStr ''r-ga'') fresh)) = Suc (tick fresh)
   \<and> fst (role_name flaky_env (JStr ''r-ga'') (snd (role_name flaky_env (JStr ''r-ga'') fresh)))
       = JStr ''Global Administrator''
   \<and> role_name flaky_env (JStr ''r-ga'')
        (fresh\<lparr>role_name_by_id := [(JStr ''r-ga'', JStr ''Global Administrator'')]\<rparr>)
       = (JStr ''Global Administrator'',
          fresh\<lparr>role_name_by_id := [(JStr ''r-ga'', JStr ''Global Administrator'')]\<rparr>)
   \<and> role_name_by_id (snd (load_all_role_definitions sample_env 2 fresh))
       = [(JStr ''r-ga'', JStr ''Global Administrator''), (JStr ''r-rd'', JStr ''Directory Readers'')]
   \<and> (\<exists>defs w1. gget_all sample_env 2 ''/roleManagement/directory/roleDefinitions'' None fresh
          = (Some (Inr defs), w1)
        \<and> role_name_by_id (snd (load_all_role_definitions sample_env 2 fresh))
            = fold (\<lambda>d. AList.update (dict_get d ''id'')
                           (dict_get_default d ''displayName'' (JStr []))) defs
                (role_name_by_id fresh))"
proof -
  let ?rga = "JStr ''r-ga''"
  let ?flds = "[''id'' \<mapsto> JStr ''r-ga'', ''displayName'' \<mapsto> JStr ''Global Administrator'']"
  let ?ok = "\<lparr>status_code = 200, retry_after = None, body = Json ?flds (Some []), resp_text = []\<rparr>"
  let ?hot = "fresh\<lparr>role_name_by_id := [(JStr ''r-ga'', JStr ''Global Administrator'')]\<rparr>"
  have tr: "truthy ?rga" by simp
  have m: "map_of (role_name_by_id fresh) ?rga = None" by (simp add: fresh_def)
  have n1: "net flaky_env (Suc (tick fresh)) (per_id_request ?rga) = Reply ?ok"
    by (simp add: flaky_env_def sample_env_def sample_net_def per_id_request_def ok_reply_def
        fresh_def)
  have d: "dict_get_default ?flds ''displayName'' ?rga = JStr ''Global Administrator''"
    by (simp add: dict_get_default_def)
  note t1 = cache_written_on_success_only [where env = flaky_env and rid = ?rga and w = fresh
      and r = ?ok and flds = ?flds and vals = "Some []"]
  from t1 tr m flaky_calls(6) have
    f: "role_name flaky_env ?rga fresh = (?rga, snd (http_get flaky_env (per_id_request ?rga) fresh))"
    by blast
  from t1 tr m flaky_calls(6) have
    c: "role_name_by_id (snd (role_name flaky_env ?rga fresh)) = role_name_by_id fresh"
    by blast
  from t1 tr m flaky_calls(6) have
    k: "tick (snd (role_name flaky_env ?rga fresh)) = Suc (tick fresh)"
    by blast
  from f c k have 1:
    "fst (role_name flaky_env ?rga fresh) = ?rga"
    "role_name_by_id (snd (role_name flaky_env ?rga fresh)) = role_name_by_id fresh"
    "tick (snd (role_name flaky_env ?rga fresh)) = Suc (tick fresh)"
    by simp_all
  have sc: "status_code ?ok < 400" and bd: "body ?ok = Json ?flds (Some [])" by simp_all
  from t1 tr m flaky_calls(6) n1 sc bd have
    "fst (role_name flaky_env ?rga (snd (role_name flaky_env ?rga fresh)))
       = dict_get_default ?flds ''displayName'' ?rga"
    by blast
  then have 2: "fst (role_name flaky_env ?rga (snd (role_name flaky_env ?rga fresh)))
       = JStr ''Global Administrator''"
    by (simp only: d)
  note t2 = cache_written_on_success_only [where env = flaky_env and rid = ?rga and w = ?hot
      and v = "JStr ''Global Administrator''"]
  from t2 have 3: "role_name flaky_env ?rga ?hot = (JStr ''Global Administrator'', ?hot)"
    by simp
  note t3 = cache_written_on_success_only [where env = sample_env and fuel = 2 and w = fresh]
  have ne: "role_name_by_id (snd (load_all_role_definitions sample_env 2 fresh)) \<noteq> role_name_by_id fresh"
    unfolding flaky_calls(7) by (simp add: fresh_def)
  from t3 ne have 4: "\<exists>defs w1. gget_all sample_env 2 ''/roleManagement/directory/roleDefinitions'' None fresh
          = (Some (Inr defs), w1)
        \<and> role_name_by_id (snd (load_all_role_definitions sample_env 2 fresh))
            = fold (\<lambda>d. AList.update (dict_get d ''id'')
                           (dict_get_default d ''displayName'' (JStr []))) defs
                (role_name_by_id fresh)"
    by blast
  from 1 2 3 4 flaky_calls(6,7) show ?thesis by blast
qed

end
